theory Spec2Isabelle
  imports Main "HOL-Library.AList"
begin

section \<open>The cluster manager workflow of atomic_message_handlers/workflow.py\<close>

text \<open>
  The workflow keeps a table from node names to the job that occupies each node. Signals
  start and shut down the cluster, updates allocate nodes to a job and delete a job, and
  the main loop checks the health of the assigned nodes. The three activities
  (allocate, deallocate, find bad nodes) are calls to the outside: their modules are not
  part of the workflow, so what an activity answers is a parameter of the model.
\<close>

subsection \<open>Python values\<close>

text \<open>
  A Python dict keeps its keys in insertion order: it is an association list, read in
  order by \<open>items()\<close> and written by \<^const>\<open>AList.update\<close>, which replaces the value of a
  key that is present, in place, and appends a key that is not.
\<close>

type_synonym ('k, 'v) dict = "('k \<times> 'v) list"

text \<open>\<open>str(n)\<close> of an integer, in decimal.\<close>

definition digit :: "nat \<Rightarrow> char" where
  "digit d = ''0123456789'' ! d"

function str_nat :: "nat \<Rightarrow> string" where
  "str_nat n = (if n < 10 then [digit n] else str_nat (n div 10) @ [digit (n mod 10)])"
  by pat_completeness auto
termination
  by (relation "measure id") auto

declare str_nat.simps [simp del]

definition str_int :: "int \<Rightarrow> string" where
  "str_int i = (if i < 0 then CHR ''-'' # str_nat (nat (- i)) else str_nat (nat i))"

text \<open>\<open>range(n)\<close>: the integers from 0 up to \<open>n - 1\<close>.\<close>

definition py_range :: "int \<Rightarrow> int list" where
  "py_range n = [0 .. n - 1]"

text \<open>
  \<open>xs[:n]\<close>: the first \<open>n\<close> elements, and for a negative \<open>n\<close> all but the last \<open>-n\<close>
  (none, when the list is no longer than that).
\<close>

definition slice_to :: "int \<Rightarrow> 'a list \<Rightarrow> 'a list" where
  "slice_to n xs =
     (if 0 \<le> n then take (nat n) xs else take (nat (int (length xs) + n)) xs)"

subsection \<open>The data of the workflow\<close>

text \<open>
  A node's value is \<open>None\<close> (free) or a string: the name of the job it is assigned to,
  or the marker \<open>"BAD!"\<close> that the health check writes.
\<close>

record ClusterManagerState =
  cluster_started :: bool
  cluster_shutdown :: bool
  nodes :: "(string, string option) dict option"
  max_assigned_nodes :: int

datatype ClusterManagerInput =
  ClusterManagerInput (input_state: "ClusterManagerState option") (test_continue_as_new: bool)

datatype ClusterManagerResult =
  ClusterManagerResult (result_max_assigned_nodes: int) (num_currently_assigned_nodes: int)

record ClusterManagerAllocateNNodesToJobInput =
  num_nodes :: int
  task_name :: string

datatype ClusterManagerDeleteJobInput =
  ClusterManagerDeleteJobInput (delete_task_name: string)

text \<open>
  The workflow object: its state, the lock (\<open>True\<close> when \<open>nodes_lock.locked()\<close>), and the
  two settings that \<open>init\<close> writes.
\<close>

record ClusterManagerWorkflow =
  state :: ClusterManagerState
  nodes_lock :: bool
  max_history_length :: "int option"
  sleep_interval_seconds :: int

text \<open>What \<open>workflow.info()\<close> answers when the checkpoint decision asks.\<close>

record Info =
  is_continue_as_new_suggested :: bool
  get_current_history_length :: int

text \<open>
  The exceptions of the workflow: the two \<open>ApplicationError\<close>s it raises itself (with
  their message), the failure of an activity (with what the activity reported), and the
  two that Python raises when \<open>nodes\<close> is still \<open>None\<close>: \<open>None.items()\<close> and \<open>None[k] = v\<close>.
\<close>

datatype error =
    ApplicationError string
  | ActivityError string
  | AttributeError
  | TypeError

text \<open>
  Where a coroutine stands after it has run as far as it can: parked on a condition or on
  the lock (\<open>Suspended\<close>), ended by an exception, or returned.
\<close>

datatype 'a outcome = Suspended | Raised error | Returned 'a

text \<open>
  What an activity answers to \<open>workflow.execute_activity\<close>: a value, or its failure once
  the retries that its policy allows are used up (\<open>Inl\<close>).
\<close>

type_synonym 'a activity_result = "string + 'a"

subsection \<open>Reading the table\<close>

text \<open>\<open>[k for k, v in self.state.nodes.items() if v is None]\<close> (line 94).\<close>

definition unassigned_nodes_of :: "(string, string option) dict \<Rightarrow> string list" where
  "unassigned_nodes_of d = map fst (filter (\<lambda>(k, v). v = None) d)"

text \<open>\<open>[k for k, v in self.state.nodes.items() if v is not None]\<close> (line 107).\<close>

definition not_none_nodes_of :: "(string, string option) dict \<Rightarrow> string list" where
  "not_none_nodes_of d = map fst (filter (\<lambda>(k, v). v \<noteq> None) d)"

text \<open>\<open>[k for k, v in self.state.nodes.items() if v == input.task_name]\<close> (lines 130-132).\<close>

definition nodes_of_task :: "string \<Rightarrow> (string, string option) dict \<Rightarrow> string list" where
  "nodes_of_task t d = map fst (filter (\<lambda>(k, v). v = Some t) d)"

text \<open>
  \<open>get_assigned_nodes\<close> (lines 145-146): the nodes whose value is neither \<open>None\<close> nor
  \<open>"BAD!"\<close>. Reading \<open>items\<close> of a table that is still \<open>None\<close> raises.
\<close>

definition assigned_nodes_of :: "(string, string option) dict \<Rightarrow> string list" where
  "assigned_nodes_of d = map fst (filter (\<lambda>(k, v). v \<noteq> None \<and> v \<noteq> Some ''BAD!'') d)"

definition get_assigned_nodes :: "ClusterManagerWorkflow \<Rightarrow> error + string list" where
  "get_assigned_nodes w =
     (case nodes (state w) of
        None \<Rightarrow> Inl AttributeError
      | Some d \<Rightarrow> Inr (assigned_nodes_of d))"

text \<open>
  \<open>for node in ns: self.state.nodes[node] = v\<close> (lines 117-118, 142-143, 159-160): each
  assignment writes one key; on a table that is \<open>None\<close> the first assignment raises.
\<close>

fun set_nodes :: "string list \<Rightarrow> string option \<Rightarrow> ClusterManagerWorkflow
    \<Rightarrow> error + ClusterManagerWorkflow" where
  "set_nodes [] v w = Inr w"
| "set_nodes (n # ns) v w =
     (case nodes (state w) of
        None \<Rightarrow> Inl TypeError
      | Some d \<Rightarrow> set_nodes ns v (w\<lparr>state := (state w)\<lparr>nodes := Some (AList.update n v d)\<rparr>\<rparr>))"

subsection \<open>Creation and the two signals\<close>

text \<open>
  \<open>__init__\<close> (lines 63-66) followed by \<open>init\<close> (lines 164-172), the first line of \<open>run\<close>:
  a fresh state unless the input brings one, an unlocked lock, and the test settings or
  the production ones.
\<close>

definition ClusterManagerState_default :: ClusterManagerState where
  "ClusterManagerState_default =
     \<lparr>cluster_started = False, cluster_shutdown = False, nodes = None, max_assigned_nodes = 0\<rparr>"

definition init :: "ClusterManagerInput \<Rightarrow> ClusterManagerWorkflow" where
  "init inp =
     \<lparr>state = (case input_state inp of Some s \<Rightarrow> s | None \<Rightarrow> ClusterManagerState_default),
      nodes_lock = False,
      max_history_length = (if test_continue_as_new inp then Some 120 else None),
      sleep_interval_seconds = (if test_continue_as_new inp then 1 else 600)\<rparr>"

text \<open>\<open>{str(k): None for k in range(25)}\<close>: the keys are written one after the other.\<close>

definition fresh_nodes :: "(string, string option) dict" where
  "fresh_nodes = foldl (\<lambda>d k. AList.update (str_int k) None d) [] (py_range 25)"

text \<open>\<open>start_cluster\<close> (lines 68-72). It has no condition: a second start signal runs it again.\<close>

definition start_cluster :: "ClusterManagerWorkflow \<Rightarrow> ClusterManagerWorkflow" where
  "start_cluster w = w\<lparr>state := (state w)\<lparr>cluster_started := True, nodes := Some fresh_nodes\<rparr>\<rparr>"

text \<open>\<open>shutdown_cluster\<close> (lines 74-78): it waits until the cluster is started.\<close>

definition shutdown_cluster :: "ClusterManagerWorkflow \<Rightarrow> unit outcome \<times> ClusterManagerWorkflow" where
  "shutdown_cluster w =
     (if \<not> cluster_started (state w) then (Suspended, w)
      else (Returned (), w\<lparr>state := (state w)\<lparr>cluster_shutdown := True\<rparr>\<rparr>))"

subsection \<open>The update \<open>allocate_n_nodes_to_job\<close>\<close>

text \<open>
  Lines 84-91: the handler waits until the cluster is started, and raises when the
  cluster is shut down.
\<close>

definition allocate_n_nodes_to_job_gate :: "ClusterManagerWorkflow \<Rightarrow> unit outcome" where
  "allocate_n_nodes_to_job_gate w =
     (if \<not> cluster_started (state w) then Suspended
      else if cluster_shutdown (state w)
      then Raised (ApplicationError ''Cannot allocate nodes to a job: Cluster is already shut down'')
      else Returned ())"

text \<open>
  Lines 93-102: from \<open>async with self.nodes_lock\<close> to the call of the activity. The
  handler waits while the lock is taken. With the lock it lists the free nodes; with too
  few of them it raises, which leaves the \<open>async with\<close> and releases the lock; otherwise
  it stands at the activity, holding the lock, with \<open>assigned_nodes\<close> chosen.
\<close>

definition allocate_n_nodes_to_job_locked ::
  "ClusterManagerAllocateNNodesToJobInput \<Rightarrow> ClusterManagerWorkflow
    \<Rightarrow> string list outcome \<times> ClusterManagerWorkflow" where
  "allocate_n_nodes_to_job_locked inp w =
     (if nodes_lock w then (Suspended, w)
      else
        (case nodes (state w) of
           None \<Rightarrow> (Raised AttributeError, w\<lparr>nodes_lock := False\<rparr>)
         | Some d \<Rightarrow>
             (let unassigned_nodes = unassigned_nodes_of d in
              if int (length unassigned_nodes) < num_nodes inp
              then (Raised (ApplicationError
                      (''Cannot allocate '' @ str_int (num_nodes inp) @ '' nodes; have only ''
                       @ str_int (int (length unassigned_nodes)) @ '' available'')),
                    w\<lparr>nodes_lock := False\<rparr>)
              else (Returned (slice_to (num_nodes inp) unassigned_nodes),
                    w\<lparr>nodes_lock := True\<rparr>))))"

text \<open>
  \<open>_allocate_nodes_to_job\<close> (lines 111-118): the activity first; only when it has
  succeeded are the nodes written.
\<close>

definition priv_allocate_nodes_to_job ::
  "unit activity_result \<Rightarrow> string list \<Rightarrow> string \<Rightarrow> ClusterManagerWorkflow
    \<Rightarrow> error + ClusterManagerWorkflow" where
  "priv_allocate_nodes_to_job answer assigned_nodes task w =
     (case answer of
        Inl fault \<Rightarrow> Inl (ActivityError fault)
      | Inr _ \<Rightarrow> set_nodes assigned_nodes (Some task) w)"

text \<open>
  Lines 104-109, once the activity has answered: the nodes are written, the maximum is
  recomputed from the nodes whose value is not \<open>None\<close>, and the handler returns; leaving
  the \<open>async with\<close>, by return or by exception, releases the lock.
\<close>

definition allocate_n_nodes_to_job_resume ::
  "unit activity_result \<Rightarrow> string list \<Rightarrow> ClusterManagerAllocateNNodesToJobInput
    \<Rightarrow> ClusterManagerWorkflow \<Rightarrow> string list outcome \<times> ClusterManagerWorkflow" where
  "allocate_n_nodes_to_job_resume answer assigned_nodes inp w =
     (case priv_allocate_nodes_to_job answer assigned_nodes (task_name inp) w of
        Inl e \<Rightarrow> (Raised e, w\<lparr>nodes_lock := False\<rparr>)
      | Inr w1 \<Rightarrow>
          (case nodes (state w1) of
             None \<Rightarrow> (Raised AttributeError, w1\<lparr>nodes_lock := False\<rparr>)
           | Some d \<Rightarrow>
               (Returned assigned_nodes,
                w1\<lparr>state := (state w1)\<lparr>max_assigned_nodes :=
                       max (max_assigned_nodes (state w1)) (int (length (not_none_nodes_of d)))\<rparr>,
                    nodes_lock := False\<rparr>)))"

text \<open>
  The whole handler, from the moment its wait for the start of the cluster is over, when
  nothing else runs while it waits for its activity.
\<close>

definition allocate_n_nodes_to_job ::
  "unit activity_result \<Rightarrow> ClusterManagerAllocateNNodesToJobInput \<Rightarrow> ClusterManagerWorkflow
    \<Rightarrow> string list outcome \<times> ClusterManagerWorkflow" where
  "allocate_n_nodes_to_job answer inp w =
     (case allocate_n_nodes_to_job_gate w of
        Suspended \<Rightarrow> (Suspended, w)
      | Raised e \<Rightarrow> (Raised e, w)
      | Returned _ \<Rightarrow>
          (case allocate_n_nodes_to_job_locked inp w of
             (Suspended, w1) \<Rightarrow> (Suspended, w1)
           | (Raised e, w1) \<Rightarrow> (Raised e, w1)
           | (Returned assigned_nodes, w1) \<Rightarrow>
               allocate_n_nodes_to_job_resume answer assigned_nodes inp w1))"

subsection \<open>The update \<open>delete_job\<close>\<close>

text \<open>Lines 122-127.\<close>

definition delete_job_gate :: "ClusterManagerWorkflow \<Rightarrow> unit outcome" where
  "delete_job_gate w =
     (if \<not> cluster_started (state w) then Suspended
      else if cluster_shutdown (state w)
      then Raised (ApplicationError ''Cannot delete a job: Cluster is already shut down'')
      else Returned ())"

text \<open>Lines 129-132: with the lock, the nodes whose value is the task's name.\<close>

definition delete_job_locked ::
  "ClusterManagerDeleteJobInput \<Rightarrow> ClusterManagerWorkflow
    \<Rightarrow> string list outcome \<times> ClusterManagerWorkflow" where
  "delete_job_locked inp w =
     (if nodes_lock w then (Suspended, w)
      else
        (case nodes (state w) of
           None \<Rightarrow> (Raised AttributeError, w\<lparr>nodes_lock := False\<rparr>)
         | Some d \<Rightarrow> (Returned (nodes_of_task (delete_task_name inp) d), w\<lparr>nodes_lock := True\<rparr>)))"

text \<open>\<open>_deallocate_nodes_for_job\<close> (lines 136-143).\<close>

definition priv_deallocate_nodes_for_job ::
  "unit activity_result \<Rightarrow> string list \<Rightarrow> string \<Rightarrow> ClusterManagerWorkflow
    \<Rightarrow> error + ClusterManagerWorkflow" where
  "priv_deallocate_nodes_for_job answer nodes_to_free task w =
     (case answer of
        Inl fault \<Rightarrow> Inl (ActivityError fault)
      | Inr _ \<Rightarrow> set_nodes nodes_to_free None w)"

text \<open>Line 134, once the activity has answered, and the end of the \<open>async with\<close>.\<close>

definition delete_job_resume ::
  "unit activity_result \<Rightarrow> string list \<Rightarrow> ClusterManagerDeleteJobInput
    \<Rightarrow> ClusterManagerWorkflow \<Rightarrow> unit outcome \<times> ClusterManagerWorkflow" where
  "delete_job_resume answer nodes_to_free inp w =
     (case priv_deallocate_nodes_for_job answer nodes_to_free (delete_task_name inp) w of
        Inl e \<Rightarrow> (Raised e, w\<lparr>nodes_lock := False\<rparr>)
      | Inr w1 \<Rightarrow> (Returned (), w1\<lparr>nodes_lock := False\<rparr>))"

definition delete_job ::
  "unit activity_result \<Rightarrow> ClusterManagerDeleteJobInput \<Rightarrow> ClusterManagerWorkflow
    \<Rightarrow> unit outcome \<times> ClusterManagerWorkflow" where
  "delete_job answer inp w =
     (case delete_job_gate w of
        Suspended \<Rightarrow> (Suspended, w)
      | Raised e \<Rightarrow> (Raised e, w)
      | Returned _ \<Rightarrow>
          (case delete_job_locked inp w of
             (Suspended, w1) \<Rightarrow> (Suspended, w1)
           | (Raised e, w1) \<Rightarrow> (Raised e, w1)
           | (Returned nodes_to_free, w1) \<Rightarrow> delete_job_resume answer nodes_to_free inp w1))"

subsection \<open>The health check\<close>

text \<open>
  \<open>perform_health_checks\<close>, lines 149-150: with the lock, the assigned nodes, which are
  handed to the activity \<open>find_bad_nodes\<close>.
\<close>

definition perform_health_checks_locked ::
  "ClusterManagerWorkflow \<Rightarrow> string list outcome \<times> ClusterManagerWorkflow" where
  "perform_health_checks_locked w =
     (if nodes_lock w then (Suspended, w)
      else
        (case get_assigned_nodes (w\<lparr>nodes_lock := True\<rparr>) of
           Inl e \<Rightarrow> (Raised e, w\<lparr>nodes_lock := False\<rparr>)
         | Inr assigned_nodes \<Rightarrow> (Returned assigned_nodes, w\<lparr>nodes_lock := True\<rparr>)))"

text \<open>
  Lines 152-160, once the activity has answered. The activity runs with
  \<open>RetryPolicy(maximum_attempts=1)\<close>, so one failed attempt is its failure. There is no
  \<open>try\<close> around the call: the failure leaves the \<open>async with\<close>, which releases the lock,
  and goes on to the caller. An answer is a collection of node names, each of which is
  marked \<open>"BAD!"\<close>.
\<close>

definition perform_health_checks_resume ::
  "string list activity_result \<Rightarrow> ClusterManagerWorkflow
    \<Rightarrow> unit outcome \<times> ClusterManagerWorkflow" where
  "perform_health_checks_resume answer w =
     (case answer of
        Inl fault \<Rightarrow> (Raised (ActivityError fault), w\<lparr>nodes_lock := False\<rparr>)
      | Inr bad_nodes \<Rightarrow>
          (case set_nodes bad_nodes (Some ''BAD!'') w of
             Inl e \<Rightarrow> (Raised e, w\<lparr>nodes_lock := False\<rparr>)
           | Inr w1 \<Rightarrow> (Returned (), w1\<lparr>nodes_lock := False\<rparr>)))"

definition perform_health_checks ::
  "string list activity_result \<Rightarrow> ClusterManagerWorkflow
    \<Rightarrow> unit outcome \<times> ClusterManagerWorkflow" where
  "perform_health_checks answer w =
     (case perform_health_checks_locked w of
        (Suspended, w1) \<Rightarrow> (Suspended, w1)
      | (Raised e, w1) \<Rightarrow> (Raised e, w1)
      | (Returned assigned_nodes, w1) \<Rightarrow> perform_health_checks_resume answer w1)"

subsection \<open>The checkpoint decision and the main loop\<close>

text \<open>
  \<open>should_continue_as_new\<close> (lines 174-186). \<open>self.max_history_length and ...\<close> is false
  for \<open>None\<close> and for 0.
\<close>

definition should_continue_as_new :: "Info \<Rightarrow> ClusterManagerWorkflow \<Rightarrow> bool" where
  "should_continue_as_new info w =
     (if nodes_lock w then False
      else if is_continue_as_new_suggested info then True
      else if (case max_history_length w of
                 None \<Rightarrow> False
               | Some m \<Rightarrow> m \<noteq> 0 \<and> get_current_history_length info > m)
      then True
      else False)"

text \<open>
  One turn of the loop of \<open>run\<close> (lines 195-214) and its return (lines 216-218). The
  health check is awaited outside the \<open>try\<close>, which only catches the timeout of the wait:
  an exception of the health check ends \<open>run\<close>. After the wait, whether its condition
  came true or its timeout expired, the loop ends with the result when the cluster is
  shut down, hands the state to a new run when \<open>should_continue_as_new\<close> says so, and
  goes round again otherwise.
\<close>

datatype run_step =
    Blocked
  | Failed error
  | Finished ClusterManagerResult
  | Continued_as_new ClusterManagerInput
  | Next_turn

definition run_after_wait ::
  "ClusterManagerInput \<Rightarrow> Info \<Rightarrow> ClusterManagerWorkflow \<Rightarrow> run_step" where
  "run_after_wait inp info w =
     (if cluster_shutdown (state w)
      then (case get_assigned_nodes w of
              Inl e \<Rightarrow> Failed e
            | Inr ns \<Rightarrow>
                Finished (ClusterManagerResult (max_assigned_nodes (state w)) (int (length ns))))
      else if should_continue_as_new info w
      then Continued_as_new (ClusterManagerInput (Some (state w)) (test_continue_as_new inp))
      else Next_turn)"

text \<open>A turn during whose waits nothing else runs.\<close>

definition run_turn ::
  "ClusterManagerInput \<Rightarrow> string list activity_result \<Rightarrow> Info \<Rightarrow> ClusterManagerWorkflow
    \<Rightarrow> run_step \<times> ClusterManagerWorkflow" where
  "run_turn inp answer info w =
     (case perform_health_checks answer w of
        (Suspended, w1) \<Rightarrow> (Blocked, w1)
      | (Raised e, w1) \<Rightarrow> (Failed e, w1)
      | (Returned _, w1) \<Rightarrow> (run_after_wait inp info w1, w1))"

subsection \<open>Executions\<close>

text \<open>
  The workflow runs its coroutines one at a time, and changes from one to another only
  where a coroutine waits. An execution is the input of \<open>run\<close>, the workflow object, and
  the coroutine, if any, that stands inside \<open>async with self.nodes_lock\<close> waiting for its
  activity, with the local variables it will use when it goes on.
\<close>

datatype frame =
    Allocating "string list" ClusterManagerAllocateNNodesToJobInput
  | Deleting "string list" ClusterManagerDeleteJobInput
  | Checking "string list"

record execution =
  run_input :: ClusterManagerInput
  workflow :: ClusterManagerWorkflow
  in_activity :: "frame option"

text \<open>
  The events of an execution, each of which runs one coroutine from where it stands to
  its next wait:
  \<^item> the two signals;
  \<^item> an update arrives (or wakes from its wait for the start of the cluster): it passes
    its gate and, if the lock is free, runs up to its activity;
  \<^item> an update that passed its gate earlier and waited for the lock is granted it;
  \<^item> \<open>run\<close>, which waits for the start of the cluster (line 192), begins a health check;
  \<^item> the allocate or deallocate activity of the update that holds the lock answers, and
    the update runs to its end;
  \<^item> \<open>find_bad_nodes\<close> answers, and the health check runs to its end;
  \<^item> \<open>run\<close>, after its wait, decides to continue as new: a new workflow object is
    created from the state, and coroutines of the old run are gone.
  An event that finds its coroutine unable to move leaves the execution as it is.
\<close>

datatype event =
    Signal_start_cluster
  | Signal_shutdown_cluster
  | Update_allocate ClusterManagerAllocateNNodesToJobInput
  | Granted_allocate ClusterManagerAllocateNNodesToJobInput
  | Update_delete ClusterManagerDeleteJobInput
  | Granted_delete ClusterManagerDeleteJobInput
  | Run_health_check
  | Activity_done "unit activity_result"
  | Health_answer "string list activity_result"
  | Run_checkpoint Info

definition park ::
  "(string list \<Rightarrow> frame) \<Rightarrow> string list outcome \<times> ClusterManagerWorkflow \<Rightarrow> execution
    \<Rightarrow> execution" where
  "park f r x =
     (case r of
        (Returned ns, w) \<Rightarrow> x\<lparr>workflow := w, in_activity := Some (f ns)\<rparr>
      | (_, w) \<Rightarrow> x\<lparr>workflow := w\<rparr>)"

fun exec :: "event \<Rightarrow> execution \<Rightarrow> execution" where
  "exec Signal_start_cluster x = x\<lparr>workflow := start_cluster (workflow x)\<rparr>"
| "exec Signal_shutdown_cluster x = x\<lparr>workflow := snd (shutdown_cluster (workflow x))\<rparr>"
| "exec (Update_allocate inp) x =
     (case allocate_n_nodes_to_job_gate (workflow x) of
        Returned _ \<Rightarrow>
          park (\<lambda>ns. Allocating ns inp) (allocate_n_nodes_to_job_locked inp (workflow x)) x
      | _ \<Rightarrow> x)"
| "exec (Granted_allocate inp) x =
     park (\<lambda>ns. Allocating ns inp) (allocate_n_nodes_to_job_locked inp (workflow x)) x"
| "exec (Update_delete inp) x =
     (case delete_job_gate (workflow x) of
        Returned _ \<Rightarrow> park (\<lambda>ns. Deleting ns inp) (delete_job_locked inp (workflow x)) x
      | _ \<Rightarrow> x)"
| "exec (Granted_delete inp) x =
     park (\<lambda>ns. Deleting ns inp) (delete_job_locked inp (workflow x)) x"
| "exec Run_health_check x =
     (if cluster_started (state (workflow x))
      then park Checking (perform_health_checks_locked (workflow x)) x
      else x)"
| "exec (Activity_done answer) x =
     (case in_activity x of
        Some (Allocating ns inp) \<Rightarrow>
          x\<lparr>workflow := snd (allocate_n_nodes_to_job_resume answer ns inp (workflow x)),
            in_activity := None\<rparr>
      | Some (Deleting ns inp) \<Rightarrow>
          x\<lparr>workflow := snd (delete_job_resume answer ns inp (workflow x)),
            in_activity := None\<rparr>
      | _ \<Rightarrow> x)"
| "exec (Health_answer answer) x =
     (case in_activity x of
        Some (Checking ns) \<Rightarrow>
          x\<lparr>workflow := snd (perform_health_checks_resume answer (workflow x)),
            in_activity := None\<rparr>
      | _ \<Rightarrow> x)"
| "exec (Run_checkpoint info) x =
     (case run_after_wait (run_input x) info (workflow x) of
        Continued_as_new inp \<Rightarrow> \<lparr>run_input = inp, workflow = init inp, in_activity = None\<rparr>
      | _ \<Rightarrow> x)"

definition run_events :: "event list \<Rightarrow> execution \<Rightarrow> execution" where
  "run_events es x = foldl (\<lambda>x e. exec e x) x es"

text \<open>
  A workflow that has just been created without a state to resume from, in test mode or
  not, and one whose cluster has then been started.
\<close>

definition created :: "bool \<Rightarrow> execution" where
  "created test =
     \<lparr>run_input = ClusterManagerInput None test,
      workflow = init (ClusterManagerInput None test),
      in_activity = None\<rparr>"

definition started_cluster :: "bool \<Rightarrow> execution" where
  "started_cluster test = exec Signal_start_cluster (created test)"

subsection \<open>What the properties speak of\<close>

text \<open>
  The value of a node: \<open>None\<close> when there is no table or no such node, otherwise the
  node's value (\<open>Some None\<close> is a free node).
\<close>

definition lookup_node :: "ClusterManagerWorkflow \<Rightarrow> string \<Rightarrow> string option option" where
  "lookup_node w k = (case nodes (state w) of None \<Rightarrow> None | Some d \<Rightarrow> map_of d k)"

text \<open>
  An execution is consistent when the lock is taken exactly while a coroutine stands at
  its activity, the keys of the table are distinct, the nodes that an allocation has
  chosen have no value yet, and the nodes that a deletion has chosen have no value or the
  name of its job.
\<close>

definition consistent :: "execution \<Rightarrow> bool" where
  "consistent x \<longleftrightarrow>
     (nodes_lock (workflow x) \<longleftrightarrow> in_activity x \<noteq> None) \<and>
     (case nodes (state (workflow x)) of
        None \<Rightarrow> in_activity x = None
      | Some d \<Rightarrow>
          distinct (map fst d) \<and>
          (case in_activity x of
             None \<Rightarrow> True
           | Some (Allocating ns inp) \<Rightarrow> \<forall>k \<in> set ns. \<forall>j. map_of d k \<noteq> Some (Some j)
           | Some (Deleting ns inp) \<Rightarrow>
               \<forall>k \<in> set ns. \<forall>j. map_of d k = Some (Some j) \<longrightarrow> j = delete_task_name inp
           | Some (Checking ns) \<Rightarrow> True))"

text \<open>
  The pool is intact when the table is there and has the 25 keys of the start, in their
  order, and the nodes chosen by the update that holds the lock are among them.
\<close>

definition pool_intact :: "execution \<Rightarrow> bool" where
  "pool_intact x \<longleftrightarrow>
     (case nodes (state (workflow x)) of
        None \<Rightarrow> False
      | Some d \<Rightarrow> map fst d = map fst fresh_nodes) \<and>
     (case in_activity x of
        Some (Allocating ns inp) \<Rightarrow> set ns \<subseteq> set (map fst fresh_nodes)
      | Some (Deleting ns inp) \<Rightarrow> set ns \<subseteq> set (map fst fresh_nodes)
      | _ \<Rightarrow> True)"

text \<open>A health check's answer names known nodes when every node it reports is one of the 25.\<close>

fun names_known_nodes :: "event \<Rightarrow> bool" where
  "names_known_nodes (Health_answer (Inr bad_nodes)) = (set bad_nodes \<subseteq> set (map fst fresh_nodes))"
| "names_known_nodes _ = True"

text \<open>An update that deletes the job whose name is the marker of the health check.\<close>

fun deletes_marker :: "event \<Rightarrow> bool" where
  "deletes_marker (Update_delete inp) = (delete_task_name inp = ''BAD!'')"
| "deletes_marker (Granted_delete inp) = (delete_task_name inp = ''BAD!'')"
| "deletes_marker _ = False"

subsection \<open>A run with a bad node\<close>

text \<open>
  The cluster is started; job \<open>a\<close> is given one node; the health check finds node \<open>0\<close>
  bad; job \<open>b\<close> is given one node. Each step runs alone, and every activity succeeds.
\<close>

definition run_started :: ClusterManagerWorkflow where
  "run_started = start_cluster (init (ClusterManagerInput None False))"

definition run_allocated_a :: ClusterManagerWorkflow where
  "run_allocated_a =
     snd (allocate_n_nodes_to_job (Inr ()) \<lparr>num_nodes = 1, task_name = ''a''\<rparr> run_started)"

definition run_checked :: ClusterManagerWorkflow where
  "run_checked = snd (perform_health_checks (Inr [''0'']) run_allocated_a)"

definition run_allocated_b :: ClusterManagerWorkflow where
  "run_allocated_b =
     snd (allocate_n_nodes_to_job (Inr ()) \<lparr>num_nodes = 1, task_name = ''b''\<rparr> run_checked)"

subsection \<open>A run resumed from a table in another order\<close>

text \<open>
  \<open>init\<close> takes the state that the input of \<open>run\<close> brings as it is. Here the input brings
  a started cluster whose table lists the 25 nodes, all free, in the order of their names
  as strings, as a state that was stored with its keys sorted does.
\<close>

definition sorted_table :: "(string, string option) dict" where
  "sorted_table =
     [(''0'', None), (''1'', None), (''10'', None), (''11'', None), (''12'', None),
      (''13'', None), (''14'', None), (''15'', None), (''16'', None), (''17'', None),
      (''18'', None), (''19'', None), (''2'', None), (''20'', None), (''21'', None),
      (''22'', None), (''23'', None), (''24'', None), (''3'', None), (''4'', None),
      (''5'', None), (''6'', None), (''7'', None), (''8'', None), (''9'', None)]"

definition resumed_sorted :: ClusterManagerWorkflow where
  "resumed_sorted =
     init (ClusterManagerInput
       (Some \<lparr>cluster_started = True, cluster_shutdown = False, nodes = Some sorted_table,
              max_assigned_nodes = 0\<rparr>) False)"

section \<open>Properties\<close>

lemma fresh_nodes_eq:
  "fresh_nodes =
     [(''0'', None), (''1'', None), (''2'', None), (''3'', None), (''4'', None),
      (''5'', None), (''6'', None), (''7'', None), (''8'', None), (''9'', None),
      (''10'', None), (''11'', None), (''12'', None), (''13'', None), (''14'', None),
      (''15'', None), (''16'', None), (''17'', None), (''18'', None), (''19'', None),
      (''20'', None), (''21'', None), (''22'', None), (''23'', None), (''24'', None)]"
  by code_simp

subsection \<open>Evaluation of the initial table\<close>

lemma str_int_25: "str_int 25 = ''25''"
  by (simp add: str_int_def str_nat.simps [of 25] str_nat.simps [of 2] digit_def)

lemma str_int_26: "str_int 26 = ''26''"
  by (simp add: str_int_def str_nat.simps [of 26] str_nat.simps [of 2] digit_def)

lemma length_unassigned_fresh: "length (unassigned_nodes_of fresh_nodes) = 25"
  by (simp add: fresh_nodes_eq unassigned_nodes_of_def)

subsection \<open>The updates after shutdown\<close>

text \<open>
  Claim C6. In a state in which the cluster is started and the shutdown flag is set, an
  invocation of \<open>allocate_n_nodes_to_job\<close> and an invocation of \<open>delete_job\<close> both end at
  once with an \<open>ApplicationError\<close>, the exception that reaches the caller of the update,
  whatever the activity would have answered, and the workflow is unchanged.
\<close>

theorem updates_rejected_after_shutdown:
  assumes "cluster_started (state w)" and "cluster_shutdown (state w)"
  shows "allocate_n_nodes_to_job answer inp w =
           (Raised (ApplicationError
              ''Cannot allocate nodes to a job: Cluster is already shut down''), w)
         \<and> delete_job answer dinp w =
           (Raised (ApplicationError ''Cannot delete a job: Cluster is already shut down''), w)"
  using assms
  by (simp add: allocate_n_nodes_to_job_def allocate_n_nodes_to_job_gate_def
      delete_job_def delete_job_gate_def)

theorem updates_rejected_after_shutdown_witness:
  "cluster_started
     (state (snd (shutdown_cluster (start_cluster (init (ClusterManagerInput None False))))))
   \<and> cluster_shutdown
     (state (snd (shutdown_cluster (start_cluster (init (ClusterManagerInput None False))))))
   \<and> allocate_n_nodes_to_job (Inr ()) \<lparr>num_nodes = 2, task_name = ''task-0''\<rparr>
        (snd (shutdown_cluster (start_cluster (init (ClusterManagerInput None False)))))
      = (Raised (ApplicationError
           ''Cannot allocate nodes to a job: Cluster is already shut down''),
         snd (shutdown_cluster (start_cluster (init (ClusterManagerInput None False)))))
   \<and> delete_job (Inr ()) (ClusterManagerDeleteJobInput ''task-0'')
        (snd (shutdown_cluster (start_cluster (init (ClusterManagerInput None False)))))
      = (Raised (ApplicationError ''Cannot delete a job: Cluster is already shut down''),
         snd (shutdown_cluster (start_cluster (init (ClusterManagerInput None False)))))"
  using updates_rejected_after_shutdown
    [of "snd (shutdown_cluster (start_cluster (init (ClusterManagerInput None False))))"
      "Inr ()" "\<lparr>num_nodes = 2, task_name = ''task-0''\<rparr>"
      "ClusterManagerDeleteJobInput ''task-0''"]
  by (simp add: shutdown_cluster_def start_cluster_def init_def)

subsection \<open>Too few free nodes\<close>

text \<open>
  Claim C5. When the cluster is started and not shut down, the lock is free, and fewer
  nodes are free than the update asks for, \<open>allocate_n_nodes_to_job\<close> ends with the
  \<open>ApplicationError\<close> whose message carries the number asked for and the number
  available; the workflow after it is the workflow before it (table and maximum
  untouched), and the lock is released.
\<close>

theorem allocate_insufficient_capacity:
  assumes "cluster_started (state w)" and "\<not> cluster_shutdown (state w)"
    and "\<not> nodes_lock w" and "nodes (state w) = Some d"
    and "int (length (unassigned_nodes_of d)) < num_nodes inp"
  shows "allocate_n_nodes_to_job answer inp w =
           (Raised (ApplicationError
              (''Cannot allocate '' @ str_int (num_nodes inp) @ '' nodes; have only ''
               @ str_int (int (length (unassigned_nodes_of d))) @ '' available'')), w)
         \<and> \<not> nodes_lock (snd (allocate_n_nodes_to_job answer inp w))"
  using assms
  by (simp add: allocate_n_nodes_to_job_def allocate_n_nodes_to_job_gate_def
      allocate_n_nodes_to_job_locked_def)

theorem allocate_insufficient_capacity_witness:
  "allocate_n_nodes_to_job (Inr ()) \<lparr>num_nodes = 26, task_name = ''task-0''\<rparr>
       (start_cluster (init (ClusterManagerInput None False)))
     = (Raised (ApplicationError ''Cannot allocate 26 nodes; have only 25 available''),
        start_cluster (init (ClusterManagerInput None False)))
   \<and> \<not> nodes_lock
       (snd (allocate_n_nodes_to_job (Inr ()) \<lparr>num_nodes = 26, task_name = ''task-0''\<rparr>
          (start_cluster (init (ClusterManagerInput None False)))))"
  using allocate_insufficient_capacity
    [of "start_cluster (init (ClusterManagerInput None False))" fresh_nodes
      "\<lparr>num_nodes = 26, task_name = ''task-0''\<rparr>" "Inr ()"]
  by (simp add: start_cluster_def init_def ClusterManagerState_default_def
      length_unassigned_fresh str_int_25 str_int_26)

subsection \<open>A failed allocate activity\<close>

text \<open>
  Claim C7. When the allocate activity fails, the update that resumes from it ends with
  the activity's failure and writes nothing but the release of the lock, whatever nodes
  it had chosen; and an update that runs from its invocation to that failure leaves the
  workflow (table, maximum and lock) exactly as it found it.
\<close>

theorem allocate_activity_failure_no_mutation:
  "allocate_n_nodes_to_job_resume (Inl fault) assigned_nodes inp w
     = (Raised (ActivityError fault), w\<lparr>nodes_lock := False\<rparr>)
   \<and> (cluster_started (state w) \<and> \<not> cluster_shutdown (state w) \<and> \<not> nodes_lock w
        \<and> nodes (state w) = Some d \<and> num_nodes inp \<le> int (length (unassigned_nodes_of d))
      \<longrightarrow> allocate_n_nodes_to_job (Inl fault) inp w = (Raised (ActivityError fault), w))"
  by (simp add: allocate_n_nodes_to_job_def allocate_n_nodes_to_job_gate_def
      allocate_n_nodes_to_job_locked_def allocate_n_nodes_to_job_resume_def
      priv_allocate_nodes_to_job_def)

theorem allocate_activity_failure_no_mutation_witness:
  "allocate_n_nodes_to_job (Inl ''timed out'') \<lparr>num_nodes = 2, task_name = ''task-0''\<rparr>
       (start_cluster (init (ClusterManagerInput None False)))
     = (Raised (ActivityError ''timed out''),
        start_cluster (init (ClusterManagerInput None False)))"
  using allocate_activity_failure_no_mutation
    [of "''timed out''" "[]" "\<lparr>num_nodes = 2, task_name = ''task-0''\<rparr>"
      "start_cluster (init (ClusterManagerInput None False))" fresh_nodes]
  by (simp add: start_cluster_def init_def ClusterManagerState_default_def
      length_unassigned_fresh)

subsection \<open>A failed health check\<close>

text \<open>
  Claim C2. The claim says that a failure of \<open>find_bad_nodes\<close> is logged and discarded.
  The code does not discard it: on a cluster that has just been started, whatever the
  input of \<open>run\<close>, \<open>perform_health_checks\<close> ends with the failure of the activity, and the
  turn of \<open>run\<close> that awaited it ends with the same failure. The state is unchanged and
  the lock is released, as the claim says.
\<close>

theorem health_check_failure_propagates:
  "perform_health_checks (Inl fault) (start_cluster (init inp))
     = (Raised (ActivityError fault), start_cluster (init inp))
   \<and> run_turn inp (Inl fault) info (start_cluster (init inp))
     = (Failed (ActivityError fault), start_cluster (init inp))"
  by (simp add: run_turn_def perform_health_checks_def perform_health_checks_locked_def
      perform_health_checks_resume_def get_assigned_nodes_def start_cluster_def init_def)

subsection \<open>Writing nodes\<close>

lemma set_nodes_Some:
  "nodes (state w) = Some d \<Longrightarrow>
   set_nodes ns v w = Inr (w\<lparr>state := (state w)\<lparr>nodes := Some (fold (\<lambda>n. AList.update n v) ns d)\<rparr>\<rparr>)"
proof (induction ns arbitrary: w d)
  case Nil
  then show ?case by simp
next
  case (Cons n ns)
  show ?case
    using Cons.prems Cons.IH [of "w\<lparr>state := (state w)\<lparr>nodes := Some (AList.update n v d)\<rparr>\<rparr>" "AList.update n v d"]
    by simp
qed

lemma map_of_fold_update:
  "map_of (fold (\<lambda>n. AList.update n v) ns d) k = (if k \<in> set ns then Some v else map_of d k)"
  by (induction ns arbitrary: d) (auto simp: update_conv')

lemma keys_fold_update:
  "set ns \<subseteq> set (map fst d) \<Longrightarrow> map fst (fold (\<lambda>n. AList.update n v) ns d) = map fst d"
proof (induction ns arbitrary: d)
  case Nil
  then show ?case by simp
next
  case (Cons n ns)
  have k: "map fst (AList.update n v d) = map fst d"
    using Cons.prems by (simp add: update_keys)
  have "map fst (fold (\<lambda>n. AList.update n v) ns (AList.update n v d)) = map fst (AList.update n v d)"
    using Cons.prems k by (intro Cons.IH) simp
  then show ?case using k by simp
qed

lemma distinct_fold_update:
  "distinct (map fst d) \<Longrightarrow> distinct (map fst (fold (\<lambda>n. AList.update n v) ns d))"
  by (induction ns arbitrary: d) (auto simp: distinct_update)

lemma unassigned_subset_keys: "set (unassigned_nodes_of d) \<subseteq> set (map fst d)"
  by (auto simp: unassigned_nodes_of_def)

lemma slice_to_subset: "set (slice_to n xs) \<subseteq> set xs"
  by (auto simp: slice_to_def dest: in_set_takeD)

lemma nodes_of_task_subset_keys: "set (nodes_of_task t d) \<subseteq> set (map fst d)"
  by (auto simp: nodes_of_task_def)

lemma unassigned_free: "distinct (map fst d) \<Longrightarrow> k \<in> set (unassigned_nodes_of d) \<Longrightarrow> map_of d k = Some None"
  by (auto simp: unassigned_nodes_of_def)

lemma nodes_of_task_value: "distinct (map fst d) \<Longrightarrow> k \<in> set (nodes_of_task t d) \<Longrightarrow> map_of d k = Some (Some t)"
  by (auto simp: nodes_of_task_def)

lemma allocate_success:
  assumes "cluster_started (state w)" and "\<not> cluster_shutdown (state w)"
    and "\<not> nodes_lock w" and "nodes (state w) = Some d"
    and "num_nodes inp \<le> int (length (unassigned_nodes_of d))"
  shows "allocate_n_nodes_to_job (Inr ()) inp w =
     (Returned (slice_to (num_nodes inp) (unassigned_nodes_of d)),
      w\<lparr>state := (state w)
          \<lparr>nodes := Some (fold (\<lambda>n. AList.update n (Some (task_name inp)))
                      (slice_to (num_nodes inp) (unassigned_nodes_of d)) d),
           max_assigned_nodes := max (max_assigned_nodes (state w))
              (int (length (not_none_nodes_of (fold (\<lambda>n. AList.update n (Some (task_name inp)))
                      (slice_to (num_nodes inp) (unassigned_nodes_of d)) d))))\<rparr>\<rparr>)"
proof -
  let ?sel = "slice_to (num_nodes inp) (unassigned_nodes_of d)"
  have sn: "set_nodes ?sel (Some (task_name inp)) (w\<lparr>nodes_lock := True\<rparr>)
      = Inr (w\<lparr>nodes_lock := True,
              state := (state w)\<lparr>nodes := Some (fold (\<lambda>n. AList.update n (Some (task_name inp))) ?sel d)\<rparr>\<rparr>)"
    using set_nodes_Some [of "w\<lparr>nodes_lock := True\<rparr>" d ?sel "Some (task_name inp)"] assms(4)
    by simp
  show ?thesis
    using assms sn
    by (simp add: allocate_n_nodes_to_job_def allocate_n_nodes_to_job_gate_def
      allocate_n_nodes_to_job_locked_def allocate_n_nodes_to_job_resume_def
      priv_allocate_nodes_to_job_def)
qed

subsection \<open>What each step of a coroutine does\<close>

lemma locked_allocate_cases:
  "allocate_n_nodes_to_job_locked inp w = (r, w') \<Longrightarrow>
     (w' = w \<and> (\<forall>ns. r \<noteq> Returned ns)) \<or>
     (\<exists>d. \<not> nodes_lock w \<and> nodes (state w) = Some d \<and> w' = w\<lparr>nodes_lock := True\<rparr>
        \<and> r = Returned (slice_to (num_nodes inp) (unassigned_nodes_of d)))"
  by (auto simp: allocate_n_nodes_to_job_locked_def Let_def split: if_splits option.splits)

lemma locked_delete_cases:
  "delete_job_locked inp w = (r, w') \<Longrightarrow>
     (w' = w \<and> (\<forall>ns. r \<noteq> Returned ns)) \<or>
     (\<exists>d. \<not> nodes_lock w \<and> nodes (state w) = Some d \<and> w' = w\<lparr>nodes_lock := True\<rparr>
        \<and> r = Returned (nodes_of_task (delete_task_name inp) d))"
  by (auto simp: delete_job_locked_def split: if_splits option.splits)

lemma locked_health_cases:
  "perform_health_checks_locked w = (r, w') \<Longrightarrow>
     (w' = w \<and> (\<forall>ns. r \<noteq> Returned ns)) \<or>
     (\<exists>d. \<not> nodes_lock w \<and> nodes (state w) = Some d \<and> w' = w\<lparr>nodes_lock := True\<rparr>
        \<and> r = Returned (assigned_nodes_of d))"
  by (auto simp: perform_health_checks_locked_def get_assigned_nodes_def split: if_splits option.splits)

lemma resume_allocate_effect:
  "nodes (state w) = Some d \<Longrightarrow>
   snd (allocate_n_nodes_to_job_resume answer ns inp w) =
     (case answer of
        Inl f \<Rightarrow> w\<lparr>nodes_lock := False\<rparr>
      | Inr _ \<Rightarrow> w\<lparr>nodes_lock := False,
                 state := (state w)\<lparr>nodes := Some (fold (\<lambda>n. AList.update n (Some (task_name inp))) ns d),
                    max_assigned_nodes := max (max_assigned_nodes (state w))
                      (int (length (not_none_nodes_of (fold (\<lambda>n. AList.update n (Some (task_name inp))) ns d))))\<rparr>\<rparr>)"
  by (simp add: allocate_n_nodes_to_job_resume_def priv_allocate_nodes_to_job_def set_nodes_Some
      split: sum.splits)

lemma resume_delete_effect:
  "nodes (state w) = Some d \<Longrightarrow>
   snd (delete_job_resume answer ns inp w) =
     (case answer of
        Inl f \<Rightarrow> w\<lparr>nodes_lock := False\<rparr>
      | Inr _ \<Rightarrow> w\<lparr>nodes_lock := False,
                 state := (state w)\<lparr>nodes := Some (fold (\<lambda>n. AList.update n None) ns d)\<rparr>\<rparr>)"
  by (simp add: delete_job_resume_def priv_deallocate_nodes_for_job_def set_nodes_Some
      split: sum.splits)

lemma resume_health_effect:
  "nodes (state w) = Some d \<Longrightarrow>
   snd (perform_health_checks_resume answer w) =
     (case answer of
        Inl f \<Rightarrow> w\<lparr>nodes_lock := False\<rparr>
      | Inr bad \<Rightarrow> w\<lparr>nodes_lock := False,
                 state := (state w)\<lparr>nodes := Some (fold (\<lambda>n. AList.update n (Some ''BAD!'')) bad d)\<rparr>\<rparr>)"
  by (simp add: perform_health_checks_resume_def set_nodes_Some
      split: sum.splits)

subsection \<open>Consistency is kept by every event\<close>

lemma distinct_fresh: "distinct (map fst fresh_nodes)"
  by (simp add: fresh_nodes_eq)

lemma fresh_values: "(k, v) \<in> set fresh_nodes \<Longrightarrow> v = None"
  by (auto simp: fresh_nodes_eq)

lemma map_of_fresh: "map_of fresh_nodes k \<noteq> Some (Some j)"
  using fresh_values [of k "Some j"] by (auto dest: map_of_SomeD)

lemma consistent_start: "consistent x \<Longrightarrow> consistent (exec Signal_start_cluster x)"
  by (auto simp: consistent_def start_cluster_def distinct_fresh map_of_fresh
      split: option.splits frame.splits)

lemma consistent_shutdown: "consistent x \<Longrightarrow> consistent (exec Signal_shutdown_cluster x)"
  by (auto simp: consistent_def shutdown_cluster_def split: option.splits frame.splits)

lemma consistent_granted_allocate:
  assumes "consistent x"
  shows "consistent (exec (Granted_allocate inp) x)"
proof -
  obtain r w' where rw: "allocate_n_nodes_to_job_locked inp (workflow x) = (r, w')"
    by (cases "allocate_n_nodes_to_job_locked inp (workflow x)")
  from locked_allocate_cases [OF rw] show ?thesis
  proof (elim disjE conjE exE)
    assume "w' = workflow x" and "\<forall>ns. r \<noteq> Returned ns"
    then have "exec (Granted_allocate inp) x = x"
      using rw by (cases r) (simp_all add: park_def)
    then show ?thesis using assms by simp
  next
    fix d
    assume a: "\<not> nodes_lock (workflow x)" "nodes (state (workflow x)) = Some d"
      "w' = (workflow x)\<lparr>nodes_lock := True\<rparr>"
      "r = Returned (slice_to (num_nodes inp) (unassigned_nodes_of d))"
    have dd: "distinct (map fst d)"
      using assms a(2) by (simp add: consistent_def)
    have "\<forall>k \<in> set (slice_to (num_nodes inp) (unassigned_nodes_of d)).
            \<forall>j. map_of d k \<noteq> Some (Some j)"
      using slice_to_subset [of "num_nodes inp" "unassigned_nodes_of d"] unassigned_free [OF dd]
      by fastforce
    then show ?thesis
      using rw a dd by (simp add: park_def consistent_def)
  qed
qed

lemma consistent_update_allocate:
  "consistent x \<Longrightarrow> consistent (exec (Update_allocate inp) x)"
  using consistent_granted_allocate [of x inp]
  by (simp split: outcome.splits)

lemma consistent_granted_delete:
  assumes "consistent x"
  shows "consistent (exec (Granted_delete inp) x)"
proof -
  obtain r w' where rw: "delete_job_locked inp (workflow x) = (r, w')"
    by (cases "delete_job_locked inp (workflow x)")
  from locked_delete_cases [OF rw] show ?thesis
  proof (elim disjE conjE exE)
    assume "w' = workflow x" and "\<forall>ns. r \<noteq> Returned ns"
    then have "exec (Granted_delete inp) x = x"
      using rw by (cases r) (simp_all add: park_def)
    then show ?thesis using assms by simp
  next
    fix d
    assume a: "\<not> nodes_lock (workflow x)" "nodes (state (workflow x)) = Some d"
      "w' = (workflow x)\<lparr>nodes_lock := True\<rparr>"
      "r = Returned (nodes_of_task (delete_task_name inp) d)"
    have dd: "distinct (map fst d)"
      using assms a(2) by (simp add: consistent_def)
    have "\<forall>k \<in> set (nodes_of_task (delete_task_name inp) d).
            \<forall>j. map_of d k = Some (Some j) \<longrightarrow> j = delete_task_name inp"
      using nodes_of_task_value [OF dd] by fastforce
    then show ?thesis
      using rw a dd by (simp add: park_def consistent_def)
  qed
qed

lemma consistent_update_delete:
  "consistent x \<Longrightarrow> consistent (exec (Update_delete inp) x)"
  using consistent_granted_delete [of x inp]
  by (simp split: outcome.splits)

lemma consistent_run_health_check:
  assumes "consistent x"
  shows "consistent (exec Run_health_check x)"
proof -
  obtain r w' where rw: "perform_health_checks_locked (workflow x) = (r, w')"
    by (cases "perform_health_checks_locked (workflow x)")
  from locked_health_cases [OF rw] show ?thesis
  proof (elim disjE conjE exE)
    assume "w' = workflow x" and "\<forall>ns. r \<noteq> Returned ns"
    then have "exec Run_health_check x = x"
      using rw by (cases r) (simp_all add: park_def)
    then show ?thesis using assms by simp
  next
    fix d
    assume a: "\<not> nodes_lock (workflow x)" "nodes (state (workflow x)) = Some d"
      "w' = (workflow x)\<lparr>nodes_lock := True\<rparr>"
      "r = Returned (assigned_nodes_of d)"
    have dd: "distinct (map fst d)"
      using assms a(2) by (simp add: consistent_def)
    show ?thesis
      using rw a dd assms by (simp add: park_def consistent_def)
  qed
qed

lemma consistent_activity_done:
  assumes "consistent x"
  shows "consistent (exec (Activity_done answer) x)"
proof (cases "in_activity x")
  case None
  then show ?thesis using assms by simp
next
  case (Some fr)
  then obtain d where d: "nodes (state (workflow x)) = Some d" and dd: "distinct (map fst d)"
    using assms by (auto simp: consistent_def split: option.splits)
  show ?thesis
  proof (cases fr)
    case (Allocating ns inp)
    show ?thesis
      using Some Allocating d dd
      by (simp add: resume_allocate_effect [OF d] consistent_def distinct_fold_update
          split: sum.splits)
  next
    case (Deleting ns inp)
    show ?thesis
      using Some Deleting d dd
      by (simp add: resume_delete_effect [OF d] consistent_def distinct_fold_update
          split: sum.splits)
  next
    case (Checking ns)
    then show ?thesis using Some assms by simp
  qed
qed

lemma consistent_health_answer:
  assumes "consistent x"
  shows "consistent (exec (Health_answer answer) x)"
proof (cases "in_activity x")
  case None
  then show ?thesis using assms by simp
next
  case (Some fr)
  then obtain d where d: "nodes (state (workflow x)) = Some d" and dd: "distinct (map fst d)"
    using assms by (auto simp: consistent_def split: option.splits)
  show ?thesis
  proof (cases fr)
    case (Checking ns)
    show ?thesis
      using Some Checking d dd
      by (simp add: resume_health_effect [OF d] consistent_def distinct_fold_update
          split: sum.splits)
  next
    case (Allocating ns inp)
    then show ?thesis using Some assms by simp
  next
    case (Deleting ns inp)
    then show ?thesis using Some assms by simp
  qed
qed

lemma checkpoint_unlocked:
  "run_after_wait inp info w = Continued_as_new i \<Longrightarrow>
     \<not> nodes_lock w \<and> i = ClusterManagerInput (Some (state w)) (test_continue_as_new inp)"
  by (auto simp: run_after_wait_def should_continue_as_new_def split: if_splits sum.splits)

lemma consistent_run_checkpoint:
  assumes "consistent x"
  shows "consistent (exec (Run_checkpoint info) x)"
proof (cases "run_after_wait (run_input x) info (workflow x)")
  case (Continued_as_new i)
  from checkpoint_unlocked [OF this] show ?thesis
    using assms Continued_as_new
    by (auto simp: consistent_def init_def split: option.splits)
qed (use assms in simp_all)

lemma consistent_exec: "consistent x \<Longrightarrow> consistent (exec e x)"
  by (cases e)
    (simp_all only: consistent_start consistent_shutdown consistent_update_allocate
      consistent_granted_allocate consistent_update_delete consistent_granted_delete
      consistent_run_health_check consistent_activity_done consistent_health_answer
      consistent_run_checkpoint)

lemma consistent_run_events: "consistent x \<Longrightarrow> consistent (run_events es x)"
  unfolding run_events_def
  by (induction es arbitrary: x) (simp_all add: consistent_exec)

lemma consistent_created: "consistent (created test)"
  by (simp add: consistent_def created_def init_def ClusterManagerState_default_def)

subsection \<open>The pool is kept by every event\<close>

lemma pool_start: "pool_intact x \<Longrightarrow> pool_intact (exec Signal_start_cluster x)"
  by (auto simp: pool_intact_def start_cluster_def split: option.splits frame.splits)

lemma pool_shutdown: "pool_intact x \<Longrightarrow> pool_intact (exec Signal_shutdown_cluster x)"
  by (auto simp: pool_intact_def shutdown_cluster_def split: option.splits frame.splits)

lemma pool_granted_allocate:
  assumes "pool_intact x"
  shows "pool_intact (exec (Granted_allocate inp) x)"
proof -
  obtain r w' where rw: "allocate_n_nodes_to_job_locked inp (workflow x) = (r, w')"
    by (cases "allocate_n_nodes_to_job_locked inp (workflow x)")
  from locked_allocate_cases [OF rw] show ?thesis
  proof (elim disjE conjE exE)
    assume "w' = workflow x" and "\<forall>ns. r \<noteq> Returned ns"
    then have "exec (Granted_allocate inp) x = x"
      using rw by (cases r) (simp_all add: park_def)
    then show ?thesis using assms by simp
  next
    fix d
    assume a: "\<not> nodes_lock (workflow x)" "nodes (state (workflow x)) = Some d"
      "w' = (workflow x)\<lparr>nodes_lock := True\<rparr>"
      "r = Returned (slice_to (num_nodes inp) (unassigned_nodes_of d))"
    have k: "map fst d = map fst fresh_nodes"
      using assms a(2) by (simp add: pool_intact_def)
    have "set (slice_to (num_nodes inp) (unassigned_nodes_of d)) \<subseteq> set (map fst d)"
      using slice_to_subset [of "num_nodes inp" "unassigned_nodes_of d"]
        unassigned_subset_keys [of d] by blast
    then have "set (slice_to (num_nodes inp) (unassigned_nodes_of d))
        \<subseteq> set (map fst fresh_nodes)"
      unfolding k .
    then show ?thesis
      using rw a k by (simp add: park_def pool_intact_def)
  qed
qed

lemma pool_update_allocate:
  "pool_intact x \<Longrightarrow> pool_intact (exec (Update_allocate inp) x)"
  using pool_granted_allocate [of x inp]
  by (simp split: outcome.splits)

lemma pool_granted_delete:
  assumes "pool_intact x"
  shows "pool_intact (exec (Granted_delete inp) x)"
proof -
  obtain r w' where rw: "delete_job_locked inp (workflow x) = (r, w')"
    by (cases "delete_job_locked inp (workflow x)")
  from locked_delete_cases [OF rw] show ?thesis
  proof (elim disjE conjE exE)
    assume "w' = workflow x" and "\<forall>ns. r \<noteq> Returned ns"
    then have "exec (Granted_delete inp) x = x"
      using rw by (cases r) (simp_all add: park_def)
    then show ?thesis using assms by simp
  next
    fix d
    assume a: "\<not> nodes_lock (workflow x)" "nodes (state (workflow x)) = Some d"
      "w' = (workflow x)\<lparr>nodes_lock := True\<rparr>"
      "r = Returned (nodes_of_task (delete_task_name inp) d)"
    show ?thesis
      using rw a assms nodes_of_task_subset_keys [of "delete_task_name inp" d]
      by (simp add: park_def pool_intact_def)
  qed
qed

lemma pool_update_delete:
  "pool_intact x \<Longrightarrow> pool_intact (exec (Update_delete inp) x)"
  using pool_granted_delete [of x inp]
  by (simp split: outcome.splits)

lemma pool_run_health_check:
  assumes "pool_intact x"
  shows "pool_intact (exec Run_health_check x)"
proof -
  obtain r w' where rw: "perform_health_checks_locked (workflow x) = (r, w')"
    by (cases "perform_health_checks_locked (workflow x)")
  from locked_health_cases [OF rw] show ?thesis
  proof (elim disjE conjE exE)
    assume "w' = workflow x" and "\<forall>ns. r \<noteq> Returned ns"
    then have "exec Run_health_check x = x"
      using rw by (cases r) (simp_all add: park_def)
    then show ?thesis using assms by simp
  next
    fix d
    assume a: "\<not> nodes_lock (workflow x)" "nodes (state (workflow x)) = Some d"
      "w' = (workflow x)\<lparr>nodes_lock := True\<rparr>"
      "r = Returned (assigned_nodes_of d)"
    show ?thesis
      using rw a assms by (simp add: park_def pool_intact_def)
  qed
qed

lemma pool_activity_done:
  assumes "pool_intact x"
  shows "pool_intact (exec (Activity_done answer) x)"
proof -
  obtain d where d: "nodes (state (workflow x)) = Some d" and k: "map fst d = map fst fresh_nodes"
    using assms by (auto simp: pool_intact_def split: option.splits)
  show ?thesis
  proof (cases "in_activity x")
    case None
    then show ?thesis using assms by simp
  next
    case (Some fr)
    show ?thesis
    proof (cases fr)
      case (Allocating ns inp)
      then have "set ns \<subseteq> set (map fst d)"
        using assms Some k by (simp add: pool_intact_def)
      then show ?thesis
        using Some Allocating d k
        by (simp add: resume_allocate_effect [OF d] pool_intact_def keys_fold_update
            split: sum.splits)
    next
      case (Deleting ns inp)
      then have "set ns \<subseteq> set (map fst d)"
        using assms Some k by (simp add: pool_intact_def)
      then show ?thesis
        using Some Deleting d k
        by (simp add: resume_delete_effect [OF d] pool_intact_def keys_fold_update
            split: sum.splits)
    next
      case (Checking ns)
      then show ?thesis using Some assms by simp
    qed
  qed
qed

lemma pool_health_answer:
  assumes "pool_intact x" and "names_known_nodes (Health_answer answer)"
  shows "pool_intact (exec (Health_answer answer) x)"
proof -
  obtain d where d: "nodes (state (workflow x)) = Some d" and k: "map fst d = map fst fresh_nodes"
    using assms by (auto simp: pool_intact_def split: option.splits)
  show ?thesis
  proof (cases "in_activity x")
    case None
    then show ?thesis using assms by simp
  next
    case (Some fr)
    show ?thesis
    proof (cases fr)
      case (Checking ns)
      show ?thesis
      proof (cases answer)
        case (Inl f)
        then show ?thesis
          using Some Checking d k by (simp add: resume_health_effect [OF d] pool_intact_def)
      next
        case (Inr bad)
        then have "set bad \<subseteq> set (map fst d)"
          using assms(2) k by simp
        then show ?thesis
          using Some Checking d k Inr
          by (simp add: resume_health_effect [OF d] pool_intact_def keys_fold_update)
      qed
    next
      case (Allocating ns inp)
      then show ?thesis using Some assms by simp
    next
      case (Deleting ns inp)
      then show ?thesis using Some assms by simp
    qed
  qed
qed

lemma pool_run_checkpoint:
  assumes "pool_intact x"
  shows "pool_intact (exec (Run_checkpoint info) x)"
proof (cases "run_after_wait (run_input x) info (workflow x)")
  case (Continued_as_new i)
  from checkpoint_unlocked [OF this] show ?thesis
    using assms Continued_as_new
    by (auto simp: pool_intact_def init_def split: option.splits)
qed (use assms in simp_all)

lemma pool_exec: "pool_intact x \<Longrightarrow> names_known_nodes e \<Longrightarrow> pool_intact (exec e x)"
  by (cases e)
    (simp_all only: pool_start pool_shutdown pool_update_allocate
      pool_granted_allocate pool_update_delete pool_granted_delete
      pool_run_health_check pool_activity_done pool_health_answer
      pool_run_checkpoint)

lemma pool_run_events:
  "pool_intact x \<Longrightarrow> \<forall>e \<in> set es. names_known_nodes e \<Longrightarrow> pool_intact (run_events es x)"
  unfolding run_events_def
  by (induction es arbitrary: x) (simp_all add: pool_exec)

lemma pool_started: "pool_intact (started_cluster test)"
  by (simp add: pool_intact_def started_cluster_def created_def start_cluster_def)

lemma consistent_started: "consistent (started_cluster test)"
  unfolding started_cluster_def by (rule consistent_exec [OF consistent_created])

lemma length_fresh_nodes: "length fresh_nodes = 25"
  by (simp add: fresh_nodes_eq)

subsection \<open>Assigned nodes and the size of the pool\<close>

text \<open>
  Claim C4. From a cluster that has just been started, after any sequence of events
  (arrivals, lock grants and activity answers of allocate and delete updates, with the
  signals, health checks whose answers name nodes of the pool, and checkpoints between
  them), the table has its 25 nodes, so that at most 25 nodes have a value and at most 25
  are assigned; no node is listed with two jobs; and the nodes that an allocation in
  flight has chosen are all free, so that its writes take no node from another job.
\<close>

theorem assigned_nodes_within_pool:
  assumes "\<forall>e \<in> set es. names_known_nodes e"
  shows "\<exists>d. nodes (state (workflow (run_events es (started_cluster test)))) = Some d
           \<and> length d = 25
           \<and> length (not_none_nodes_of d) \<le> 25
           \<and> length (assigned_nodes_of d) \<le> 25
           \<and> (\<forall>k j1 j2. (k, Some j1) \<in> set d \<and> (k, Some j2) \<in> set d \<longrightarrow> j1 = j2)
           \<and> (\<forall>ns inp. in_activity (run_events es (started_cluster test)) = Some (Allocating ns inp)
                 \<longrightarrow> (\<forall>k \<in> set ns. map_of d k = Some None))"
proof -
  let ?x = "run_events es (started_cluster test)"
  have c: "consistent ?x"
    by (rule consistent_run_events [OF consistent_started])
  have p: "pool_intact ?x"
    by (rule pool_run_events [OF pool_started assms])
  obtain d where d: "nodes (state (workflow ?x)) = Some d" and k: "map fst d = map fst fresh_nodes"
    using p by (auto simp: pool_intact_def split: option.splits)
  have dd: "distinct (map fst d)"
    using c d by (simp add: consistent_def)
  have len: "length d = 25"
    using arg_cong [OF k, of length] by (simp add: length_fresh_nodes)
  have cnt: "length (not_none_nodes_of d) \<le> 25"
    using len length_filter_le [of "\<lambda>(k, v). v \<noteq> None" d] by (simp add: not_none_nodes_of_def)
  have one: "\<forall>k j1 j2. (k, Some j1) \<in> set d \<and> (k, Some j2) \<in> set d \<longrightarrow> j1 = j2"
  proof (intro allI impI)
    fix k j1 j2
    assume "(k, Some j1) \<in> set d \<and> (k, Some j2) \<in> set d"
    then have "map_of d k = Some (Some j1)" and "map_of d k = Some (Some j2)"
      using map_of_is_SomeI [OF dd] by blast+
    then show "j1 = j2" by simp
  qed
  have free: "\<forall>ns inp. in_activity ?x = Some (Allocating ns inp)
                 \<longrightarrow> (\<forall>k \<in> set ns. map_of d k = Some None)"
  proof (intro allI impI ballI)
    fix ns inp k
    assume f: "in_activity ?x = Some (Allocating ns inp)" and kn: "k \<in> set ns"
    have "k \<in> set (map fst d)"
      using p f kn k by (auto simp: pool_intact_def d)
    then obtain v where v: "map_of d k = Some v"
      by (metis map_of_eq_None_iff not_Some_eq set_map)
    have "\<forall>j. map_of d k \<noteq> Some (Some j)"
      using c f kn d by (auto simp: consistent_def)
    then show "map_of d k = Some None"
      using v by (cases v) auto
  qed
  have cnt': "length (assigned_nodes_of d) \<le> 25"
    using len length_filter_le [of "\<lambda>(k, v). v \<noteq> None \<and> v \<noteq> Some ''BAD!''" d]
    by (simp add: assigned_nodes_of_def)
  show ?thesis
    using d len cnt cnt' one free by blast
qed

theorem assigned_nodes_within_pool_witness:
  "list_all names_known_nodes
      [Update_allocate \<lparr>num_nodes = 2, task_name = ''task-0''\<rparr>, Activity_done (Inr ()),
       Update_delete (ClusterManagerDeleteJobInput ''task-0''), Activity_done (Inr ()),
       Update_allocate \<lparr>num_nodes = 2, task_name = ''task-1''\<rparr>]
   \<and> (\<exists>d. nodes (state (workflow (run_events
          [Update_allocate \<lparr>num_nodes = 2, task_name = ''task-0''\<rparr>, Activity_done (Inr ()),
           Update_delete (ClusterManagerDeleteJobInput ''task-0''), Activity_done (Inr ()),
           Update_allocate \<lparr>num_nodes = 2, task_name = ''task-1''\<rparr>]
          (started_cluster False)))) = Some d
        \<and> length d = 25
        \<and> length (not_none_nodes_of d) \<le> 25
        \<and> length (assigned_nodes_of d) \<le> 25
        \<and> (\<forall>k j1 j2. (k, Some j1) \<in> set d \<and> (k, Some j2) \<in> set d \<longrightarrow> j1 = j2)
        \<and> (\<forall>ns inp. in_activity (run_events
              [Update_allocate \<lparr>num_nodes = 2, task_name = ''task-0''\<rparr>, Activity_done (Inr ()),
               Update_delete (ClusterManagerDeleteJobInput ''task-0''), Activity_done (Inr ()),
               Update_allocate \<lparr>num_nodes = 2, task_name = ''task-1''\<rparr>]
              (started_cluster False)) = Some (Allocating ns inp)
            \<longrightarrow> (\<forall>k \<in> set ns. map_of d k = Some None)))"
  using assigned_nodes_within_pool
    [of "[Update_allocate \<lparr>num_nodes = 2, task_name = ''task-0''\<rparr>, Activity_done (Inr ()),
          Update_delete (ClusterManagerDeleteJobInput ''task-0''), Activity_done (Inr ()),
          Update_allocate \<lparr>num_nodes = 2, task_name = ''task-1''\<rparr>]" False]
  by simp

subsection \<open>No checkpoint while the lock is held\<close>

lemma lock_iff_in_activity:
  "nodes_lock (workflow (run_events es (created test)))
     \<longleftrightarrow> in_activity (run_events es (created test)) \<noteq> None"
  using consistent_run_events [OF consistent_created, of es test]
  by (simp add: consistent_def)


lemma allocation_in_flight:
  "in_activity (run_events [Signal_start_cluster, Update_allocate \<lparr>num_nodes = 2, task_name = ''task-0''\<rparr>]
       (created True)) = Some (Allocating [''0'', ''1''] \<lparr>num_nodes = 2, task_name = ''task-0''\<rparr>)"
  by (simp add: run_events_def created_def init_def start_cluster_def ClusterManagerState_default_def
     allocate_n_nodes_to_job_gate_def allocate_n_nodes_to_job_locked_def park_def
     fresh_nodes_eq unassigned_nodes_of_def slice_to_def)


text \<open>
  Claim C9. While \<open>nodes_lock\<close> is locked, \<open>should_continue_as_new\<close> is false, and the
  loop of \<open>run\<close>, which continues as new only when it is true, does not continue as new.
  In every execution from the creation of the workflow, a coroutine stands at its
  activity inside \<open>async with self.nodes_lock\<close> only while the lock is locked; so while
  an update or a health check is in flight the decision is false and a checkpoint event
  changes nothing.
\<close>

theorem no_checkpoint_while_lock_held:
  "(nodes_lock w \<longrightarrow>
      \<not> should_continue_as_new info w \<and> (\<forall>i. run_after_wait inp info w \<noteq> Continued_as_new i))
   \<and> (in_activity (run_events es (created test)) \<noteq> None \<longrightarrow>
        nodes_lock (workflow (run_events es (created test)))
        \<and> \<not> should_continue_as_new info (workflow (run_events es (created test)))
        \<and> exec (Run_checkpoint info) (run_events es (created test))
            = run_events es (created test))"
proof (intro conjI impI)
  assume l: "nodes_lock w"
  then show "\<not> should_continue_as_new info w"
    by (simp add: should_continue_as_new_def)
  then show "\<forall>i. run_after_wait inp info w \<noteq> Continued_as_new i"
    by (simp add: run_after_wait_def split: sum.splits)
next
  let ?x = "run_events es (created test)"
  assume "in_activity ?x \<noteq> None"
  then show l: "nodes_lock (workflow ?x)"
    by (simp add: lock_iff_in_activity)
  then show n: "\<not> should_continue_as_new info (workflow ?x)"
    by (simp add: should_continue_as_new_def)
  then have "\<forall>i. run_after_wait (run_input ?x) info (workflow ?x) \<noteq> Continued_as_new i"
    by (simp add: run_after_wait_def split: sum.splits)
  then show "exec (Run_checkpoint info) ?x = ?x"
    by (cases "run_after_wait (run_input ?x) info (workflow ?x)") simp_all
qed


theorem no_checkpoint_while_lock_held_witness:
  "in_activity (run_events [Signal_start_cluster, Update_allocate \<lparr>num_nodes = 2, task_name = ''task-0''\<rparr>]
       (created True)) \<noteq> None
   \<and> nodes_lock (workflow (run_events [Signal_start_cluster, Update_allocate \<lparr>num_nodes = 2, task_name = ''task-0''\<rparr>]
       (created True)))
   \<and> \<not> should_continue_as_new \<lparr>is_continue_as_new_suggested = True, get_current_history_length = 500\<rparr>
       (workflow (run_events [Signal_start_cluster, Update_allocate \<lparr>num_nodes = 2, task_name = ''task-0''\<rparr>]
       (created True)))
   \<and> (\<forall>i. run_after_wait (ClusterManagerInput None True)
          \<lparr>is_continue_as_new_suggested = True, get_current_history_length = 500\<rparr>
          (workflow (run_events [Signal_start_cluster, Update_allocate \<lparr>num_nodes = 2, task_name = ''task-0''\<rparr>]
       (created True))) \<noteq> Continued_as_new i)"
  using no_checkpoint_while_lock_held [of "workflow (run_events [Signal_start_cluster, Update_allocate \<lparr>num_nodes = 2, task_name = ''task-0''\<rparr>]
       (created True))" "\<lparr>is_continue_as_new_suggested = True, get_current_history_length = 500\<rparr>"
       "ClusterManagerInput None True"
       "[Signal_start_cluster, Update_allocate \<lparr>num_nodes = 2, task_name = ''task-0''\<rparr>]" True]
    allocation_in_flight
  by simp

subsection \<open>Nodes marked bad\<close>

lemma marker_exec:
  assumes "\<forall>ns inp. in_activity x = Some (Deleting ns inp) \<longrightarrow> delete_task_name inp \<noteq> ''BAD!''"
    and "\<not> deletes_marker e"
  shows "\<forall>ns inp. in_activity (exec e x) = Some (Deleting ns inp) \<longrightarrow> delete_task_name inp \<noteq> ''BAD!''"
proof (cases e)
  case (Update_allocate inp)
  then show ?thesis using assms
    by (auto simp: park_def split: outcome.splits prod.splits)
next
  case (Granted_allocate inp)
  then show ?thesis using assms
    by (auto simp: park_def split: outcome.splits prod.splits)
next
  case (Update_delete inp)
  then show ?thesis using assms
    by (auto simp: park_def split: outcome.splits prod.splits)
next
  case (Granted_delete inp)
  then show ?thesis using assms
    by (auto simp: park_def split: outcome.splits prod.splits)
next
  case Run_health_check
  then show ?thesis using assms
    by (auto simp: park_def split: outcome.splits prod.splits)
next
  case (Activity_done a)
  then show ?thesis using assms
    by (auto split: option.splits frame.splits)
next
  case (Health_answer a)
  then show ?thesis using assms
    by (auto split: option.splits frame.splits)
next
  case (Run_checkpoint info)
  then show ?thesis using assms
    by (auto split: run_step.splits)
qed (use assms in simp_all)

lemma lookup_locked [simp]: "lookup_node (w\<lparr>nodes_lock := b\<rparr>) k = lookup_node w k"
  by (simp add: lookup_node_def)

lemma bad_exec:
  assumes c: "consistent x"
    and m: "\<forall>ns inp. in_activity x = Some (Deleting ns inp) \<longrightarrow> delete_task_name inp \<noteq> ''BAD!''"
    and e: "e \<noteq> Signal_start_cluster"
    and b: "lookup_node (workflow x) k = Some (Some ''BAD!'')"
  shows "lookup_node (workflow (exec e x)) k = Some (Some ''BAD!'')"
proof -
  obtain d where d: "nodes (state (workflow x)) = Some d" and kd: "map_of d k = Some (Some ''BAD!'')"
    using b by (auto simp: lookup_node_def split: option.splits)
  show ?thesis
  proof (cases e)
    case Signal_start_cluster
    then show ?thesis using e by simp
  next
    case Signal_shutdown_cluster
    then show ?thesis using b by (simp add: shutdown_cluster_def lookup_node_def)
  next
    case (Granted_allocate inp)
    obtain r w' where rw: "allocate_n_nodes_to_job_locked inp (workflow x) = (r, w')"
      by (cases "allocate_n_nodes_to_job_locked inp (workflow x)")
    from locked_allocate_cases [OF rw] show ?thesis
      using Granted_allocate rw b by (cases r) (auto simp: park_def)
  next
    case (Update_allocate inp)
    obtain r w' where rw: "allocate_n_nodes_to_job_locked inp (workflow x) = (r, w')"
      by (cases "allocate_n_nodes_to_job_locked inp (workflow x)")
    from locked_allocate_cases [OF rw] show ?thesis
      using Update_allocate rw b by (cases r) (auto simp: park_def split: outcome.splits)
  next
    case (Granted_delete inp)
    obtain r w' where rw: "delete_job_locked inp (workflow x) = (r, w')"
      by (cases "delete_job_locked inp (workflow x)")
    from locked_delete_cases [OF rw] show ?thesis
      using Granted_delete rw b by (cases r) (auto simp: park_def)
  next
    case (Update_delete inp)
    obtain r w' where rw: "delete_job_locked inp (workflow x) = (r, w')"
      by (cases "delete_job_locked inp (workflow x)")
    from locked_delete_cases [OF rw] show ?thesis
      using Update_delete rw b by (cases r) (auto simp: park_def split: outcome.splits)
  next
    case Run_health_check
    obtain r w' where rw: "perform_health_checks_locked (workflow x) = (r, w')"
      by (cases "perform_health_checks_locked (workflow x)")
    from locked_health_cases [OF rw] show ?thesis
      using Run_health_check rw b by (cases r) (auto simp: park_def)
  next
    case (Activity_done a)
    show ?thesis
    proof (cases "in_activity x")
      case None
      then show ?thesis using Activity_done b by simp
    next
      case (Some fr)
      show ?thesis
      proof (cases fr)
        case (Allocating ns inp)
        have "k \<notin> set ns"
          using c Some Allocating d kd by (auto simp: consistent_def)
        then show ?thesis
          using Activity_done Some Allocating d kd
          by (simp add: resume_allocate_effect [OF d] lookup_node_def map_of_fold_update
              split: sum.splits)
      next
        case (Deleting ns inp)
        have "delete_task_name inp \<noteq> ''BAD!''"
          using m Some Deleting by simp
        then have "k \<notin> set ns"
          using c Some Deleting d kd by (auto simp: consistent_def)
        then show ?thesis
          using Activity_done Some Deleting d kd
          by (simp add: resume_delete_effect [OF d] lookup_node_def map_of_fold_update
              split: sum.splits)
      next
        case (Checking ns)
        then show ?thesis using Activity_done Some b by simp
      qed
    qed
  next
    case (Health_answer a)
    show ?thesis
    proof (cases "in_activity x")
      case None
      then show ?thesis using Health_answer b by simp
    next
      case (Some fr)
      show ?thesis
      proof (cases fr)
        case (Checking ns)
        show ?thesis
          using Health_answer Some Checking d kd
          by (simp add: resume_health_effect [OF d] lookup_node_def map_of_fold_update
              split: sum.splits)
      next
        case (Allocating ns inp)
        then show ?thesis using Health_answer Some b by simp
      next
        case (Deleting ns inp)
        then show ?thesis using Health_answer Some b by simp
      qed
    qed
  next
    case (Run_checkpoint info)
    show ?thesis
    proof (cases "run_after_wait (run_input x) info (workflow x)")
      case (Continued_as_new i)
      from checkpoint_unlocked [OF this] show ?thesis
        using Run_checkpoint Continued_as_new b by (simp add: init_def lookup_node_def)
    qed (use Run_checkpoint b in simp_all)
  qed
qed

lemma run_events_append: "run_events (es @ es') x = run_events es' (run_events es x)"
  by (simp add: run_events_def)

lemma run_events_Cons: "run_events (e # es) x = run_events es (exec e x)"
  by (simp add: run_events_def)

lemma bad_run_events:
  assumes "consistent x"
    and "\<forall>ns inp. in_activity x = Some (Deleting ns inp) \<longrightarrow> delete_task_name inp \<noteq> ''BAD!''"
    and "\<forall>e \<in> set es. \<not> deletes_marker e \<and> e \<noteq> Signal_start_cluster"
    and "lookup_node (workflow x) k = Some (Some ''BAD!'')"
  shows "lookup_node (workflow (run_events es x)) k = Some (Some ''BAD!'')"
  using assms
proof (induction es arbitrary: x)
  case Nil
  then show ?case by (simp add: run_events_def)
next
  case (Cons e es)
  have "lookup_node (workflow (run_events es (exec e x))) k = Some (Some ''BAD!'')"
  proof (rule Cons.IH)
    show "consistent (exec e x)" using Cons.prems(1) by (rule consistent_exec)
    show "\<forall>ns inp. in_activity (exec e x) = Some (Deleting ns inp) \<longrightarrow> delete_task_name inp \<noteq> ''BAD!''"
      using marker_exec [OF Cons.prems(2), of e] Cons.prems(3) by simp
    show "\<forall>e \<in> set es. \<not> deletes_marker e \<and> e \<noteq> Signal_start_cluster"
      using Cons.prems(3) by simp
    show "lookup_node (workflow (exec e x)) k = Some (Some ''BAD!'')"
      using bad_exec [OF Cons.prems(1) Cons.prems(2) _ Cons.prems(4), of e] Cons.prems(3) by simp
  qed
  then show ?case by (simp add: run_events_Cons)
qed

text \<open>
  Claim C3, as amended. Take an execution from the creation of the workflow at whose end
  a node has the value \<open>"BAD!"\<close> and no deletion of the job named \<open>"BAD!"\<close> is in flight
  (none is right after a health check has marked the node, since the health check held
  the lock). Through every later sequence of allocations, deletions of jobs with another
  name, health checks, shutdown signals and checkpoints that contains no start signal,
  the node keeps that value; no allocation in flight has chosen it; and
  \<open>get_assigned_nodes\<close> does not list it. What happened before the node was marked does
  not matter: the execution of the example has deleted the job \<open>"BAD!"\<close> before.
\<close>

theorem bad_node_stays_bad:
  assumes nd: "\<forall>e \<in> set es'. \<not> deletes_marker e"
    and ns: "Signal_start_cluster \<notin> set es'"
    and fl: "\<forall>ns inp. in_activity (run_events es (created test)) = Some (Deleting ns inp)
               \<longrightarrow> delete_task_name inp \<noteq> ''BAD!''"
    and b: "lookup_node (workflow (run_events es (created test))) k = Some (Some ''BAD!'')"
  shows "lookup_node (workflow (run_events (es @ es') (created test))) k = Some (Some ''BAD!'')
    \<and> (\<forall>ns inp. in_activity (run_events (es @ es') (created test)) = Some (Allocating ns inp)
          \<longrightarrow> k \<notin> set ns)
    \<and> (\<forall>ns. get_assigned_nodes (workflow (run_events (es @ es') (created test))) = Inr ns
          \<longrightarrow> k \<notin> set ns)"
proof -
  let ?x = "run_events es (created test)"
  let ?y = "run_events (es @ es') (created test)"
  have cx: "consistent ?x" by (rule consistent_run_events [OF consistent_created])
  have cy: "consistent ?y" by (rule consistent_run_events [OF consistent_created])
  have kept: "lookup_node (workflow ?y) k = Some (Some ''BAD!'')"
    unfolding run_events_append
    using nd ns by (intro bad_run_events [OF cx fl _ b]) auto
  then obtain d where d: "nodes (state (workflow ?y)) = Some d"
    and kd: "map_of d k = Some (Some ''BAD!'')"
    by (auto simp: lookup_node_def split: option.splits)
  have dd: "distinct (map fst d)" using cy d by (simp add: consistent_def)
  have sel: "\<forall>ns inp. in_activity ?y = Some (Allocating ns inp) \<longrightarrow> k \<notin> set ns"
    using cy d kd by (auto simp: consistent_def)
  have "k \<notin> set (assigned_nodes_of d)"
  proof
    assume "k \<in> set (assigned_nodes_of d)"
    then have "\<exists>y. (k, Some y) \<in> set d \<and> y \<noteq> ''BAD!''"
      by (auto simp: assigned_nodes_of_def)
    then obtain y where "(k, Some y) \<in> set d" and "y \<noteq> ''BAD!''"
      by blast
    then show False
      using map_of_is_SomeI [OF dd, of k "Some y"] kd by simp
  qed
  then have cnt: "\<forall>ns. get_assigned_nodes (workflow ?y) = Inr ns \<longrightarrow> k \<notin> set ns"
    using d by (simp add: get_assigned_nodes_def)
  show ?thesis using kept sel cnt by blast
qed

theorem bad_node_stays_bad_witness:
  "in_activity (run_events
       [Signal_start_cluster, Update_delete (ClusterManagerDeleteJobInput ''BAD!''),
        Activity_done (Inr ()), Update_allocate \<lparr>num_nodes = 1, task_name = ''a''\<rparr>,
        Activity_done (Inr ()), Run_health_check, Health_answer (Inr [''0''])]
       (created False)) = None
   \<and> list_all (\<lambda>e. \<not> deletes_marker e)
        [Update_delete (ClusterManagerDeleteJobInput ''a''), Activity_done (Inr ()),
         Update_allocate \<lparr>num_nodes = 1, task_name = ''b''\<rparr>, Activity_done (Inr ())]
   \<and> Signal_start_cluster \<notin> set [Update_delete (ClusterManagerDeleteJobInput ''a''),
         Activity_done (Inr ()), Update_allocate \<lparr>num_nodes = 1, task_name = ''b''\<rparr>,
         Activity_done (Inr ())]
   \<and> lookup_node (workflow (run_events
         [Signal_start_cluster, Update_delete (ClusterManagerDeleteJobInput ''BAD!''),
          Activity_done (Inr ()), Update_allocate \<lparr>num_nodes = 1, task_name = ''a''\<rparr>,
          Activity_done (Inr ()), Run_health_check, Health_answer (Inr [''0''])]
         (created False))) ''0'' = Some (Some ''BAD!'')
   \<and> lookup_node (workflow (run_events
         ([Signal_start_cluster, Update_delete (ClusterManagerDeleteJobInput ''BAD!''),
           Activity_done (Inr ()), Update_allocate \<lparr>num_nodes = 1, task_name = ''a''\<rparr>,
           Activity_done (Inr ()), Run_health_check, Health_answer (Inr [''0''])]
          @ [Update_delete (ClusterManagerDeleteJobInput ''a''), Activity_done (Inr ()),
             Update_allocate \<lparr>num_nodes = 1, task_name = ''b''\<rparr>, Activity_done (Inr ())])
         (created False))) ''0'' = Some (Some ''BAD!'')"
proof -
  let ?es = "[Signal_start_cluster, Update_delete (ClusterManagerDeleteJobInput ''BAD!''),
        Activity_done (Inr ()), Update_allocate \<lparr>num_nodes = 1, task_name = ''a''\<rparr>,
        Activity_done (Inr ()), Run_health_check, Health_answer (Inr [''0''])]"
  let ?es' = "[Update_delete (ClusterManagerDeleteJobInput ''a''), Activity_done (Inr ()),
         Update_allocate \<lparr>num_nodes = 1, task_name = ''b''\<rparr>, Activity_done (Inr ())]"
  have h1: "\<forall>e \<in> set ?es'. \<not> deletes_marker e"
    by simp
  have h2: "Signal_start_cluster \<notin> set ?es'"
    by simp
  have idle: "in_activity (run_events ?es (created False)) = None"
    by code_simp
  then have h3: "\<forall>ns inp. in_activity (run_events ?es (created False)) = Some (Deleting ns inp)
               \<longrightarrow> delete_task_name inp \<noteq> ''BAD!''"
    by simp
  have h4: "lookup_node (workflow (run_events ?es (created False))) ''0'' = Some (Some ''BAD!'')"
    by code_simp
  show ?thesis
    using bad_node_stays_bad [OF h1 h2 h3 h4] h1 h2 idle h4 unfolding list_all_iff by blast
qed

text \<open>
  Claim C3 as stated fails: it lets start signals follow. In the run above node \<open>0\<close> is
  marked bad; a second start signal makes it free again, and the next allocation is
  given it.
\<close>

theorem bad_node_freed_by_second_start:
  "lookup_node run_checked ''0'' = Some (Some ''BAD!'')
   \<and> lookup_node (start_cluster run_checked) ''0'' = Some None
   \<and> fst (allocate_n_nodes_to_job (Inr ()) \<lparr>num_nodes = 1, task_name = ''c''\<rparr>
        (start_cluster run_checked)) = Returned [''0'']"
  by code_simp


subsection \<open>The maximum of assigned nodes\<close>

text \<open>
  No event of an execution lowers \<open>max_assigned_nodes\<close>: only a resumed allocation
  writes it, as the greater of its value and a count.
\<close>

lemma set_nodes_max:
  "set_nodes ns v w = Inr w1 \<Longrightarrow> max_assigned_nodes (state w1) = max_assigned_nodes (state w)"
  by (induction ns v w rule: set_nodes.induct) (auto split: option.splits)

lemma resume_allocate_max:
  "max_assigned_nodes (state w)
     \<le> max_assigned_nodes (state (snd (allocate_n_nodes_to_job_resume answer ns inp w)))"
  by (auto simp: allocate_n_nodes_to_job_resume_def priv_allocate_nodes_to_job_def
      dest: set_nodes_max split: sum.splits option.splits)

lemma resume_delete_max:
  "max_assigned_nodes (state (snd (delete_job_resume answer ns inp w)))
     = max_assigned_nodes (state w)"
  by (auto simp: delete_job_resume_def priv_deallocate_nodes_for_job_def
      dest: set_nodes_max split: sum.splits)

lemma resume_health_max:
  "max_assigned_nodes (state (snd (perform_health_checks_resume answer w)))
     = max_assigned_nodes (state w)"
  by (auto simp: perform_health_checks_resume_def dest: set_nodes_max split: sum.splits)

lemma park_state: "state (workflow (park f (r, w) x)) = state w"
  by (cases r) (simp_all add: park_def)

lemma locked_allocate_state: "state (snd (allocate_n_nodes_to_job_locked inp w)) = state w"
  by (simp add: allocate_n_nodes_to_job_locked_def Let_def split: option.splits)

lemma locked_delete_state: "state (snd (delete_job_locked inp w)) = state w"
  by (simp add: delete_job_locked_def split: option.splits)

lemma locked_health_state: "state (snd (perform_health_checks_locked w)) = state w"
  by (simp add: perform_health_checks_locked_def get_assigned_nodes_def split: option.splits)

lemma max_assigned_nodes_monotone:
  "max_assigned_nodes (state (workflow x)) \<le> max_assigned_nodes (state (workflow (exec e x)))"
proof (cases e)
  case Signal_start_cluster
  then show ?thesis by (simp add: start_cluster_def)
next
  case Signal_shutdown_cluster
  then show ?thesis by (simp add: shutdown_cluster_def)
next
  case (Update_allocate inp)
  then show ?thesis
    using park_state [of "\<lambda>ns. Allocating ns inp" "fst (allocate_n_nodes_to_job_locked inp (workflow x))"
        "snd (allocate_n_nodes_to_job_locked inp (workflow x))" x]
    by (simp add: locked_allocate_state split: outcome.splits)
next
  case (Granted_allocate inp)
  then show ?thesis
    using park_state [of "\<lambda>ns. Allocating ns inp" "fst (allocate_n_nodes_to_job_locked inp (workflow x))"
        "snd (allocate_n_nodes_to_job_locked inp (workflow x))" x]
    by (simp add: locked_allocate_state)
next
  case (Update_delete inp)
  then show ?thesis
    using park_state [of "\<lambda>ns. Deleting ns inp" "fst (delete_job_locked inp (workflow x))"
        "snd (delete_job_locked inp (workflow x))" x]
    by (simp add: locked_delete_state split: outcome.splits)
next
  case (Granted_delete inp)
  then show ?thesis
    using park_state [of "\<lambda>ns. Deleting ns inp" "fst (delete_job_locked inp (workflow x))"
        "snd (delete_job_locked inp (workflow x))" x]
    by (simp add: locked_delete_state)
next
  case Run_health_check
  then show ?thesis
    using park_state [of Checking "fst (perform_health_checks_locked (workflow x))"
        "snd (perform_health_checks_locked (workflow x))" x]
    by (simp add: locked_health_state)
next
  case (Activity_done a)
  then show ?thesis
    by (simp add: resume_allocate_max resume_delete_max split: option.splits frame.splits)
next
  case (Health_answer a)
  then show ?thesis
    by (simp add: resume_health_max split: option.splits frame.splits)
next
  case (Run_checkpoint info)
  show ?thesis
  proof (cases "run_after_wait (run_input x) info (workflow x)")
    case (Continued_as_new i)
    from checkpoint_unlocked [OF this] show ?thesis
      using Run_checkpoint Continued_as_new by (simp add: init_def)
  qed (use Run_checkpoint in simp_all)
qed

text \<open>
  Claim C1. The claim says that \<open>max_assigned_nodes\<close> is the greatest number of nodes
  that were assigned to a job at one time, nodes marked bad not counted. In the run above
  the allocations return nodes \<open>0\<close> and \<open>1\<close>, \<open>get_assigned_nodes\<close> lists no node, then
  node \<open>0\<close>, then none (node \<open>0\<close> is bad), then node \<open>1\<close>: never more than one node. The
  second allocation counts the nodes whose value is not \<open>None\<close>, the bad node among
  them, and sets \<open>max_assigned_nodes\<close> to 2.
\<close>

theorem max_assigned_nodes_counts_bad_nodes:
  "fst (allocate_n_nodes_to_job (Inr ()) \<lparr>num_nodes = 1, task_name = ''a''\<rparr> run_started)
      = Returned [''0'']
   \<and> fst (perform_health_checks (Inr [''0'']) run_allocated_a) = Returned ()
   \<and> fst (allocate_n_nodes_to_job (Inr ()) \<lparr>num_nodes = 1, task_name = ''b''\<rparr> run_checked)
      = Returned [''1'']
   \<and> get_assigned_nodes run_started = Inr []
   \<and> get_assigned_nodes run_allocated_a = Inr [''0'']
   \<and> get_assigned_nodes run_checked = Inr []
   \<and> get_assigned_nodes run_allocated_b = Inr [''1'']
   \<and> max_assigned_nodes (state run_allocated_a) = 1
   \<and> max_assigned_nodes (state run_allocated_b) = 2"
  by code_simp

subsection \<open>Evaluation of the runs\<close>

lemma run_checked_nodes:
  "nodes (state run_checked) =
     Some [(''0'', Some ''BAD!''), (''1'', None), (''2'', None), (''3'', None), (''4'', None),
      (''5'', None), (''6'', None), (''7'', None), (''8'', None), (''9'', None),
      (''10'', None), (''11'', None), (''12'', None), (''13'', None), (''14'', None),
      (''15'', None), (''16'', None), (''17'', None), (''18'', None), (''19'', None),
      (''20'', None), (''21'', None), (''22'', None), (''23'', None), (''24'', None)]"
  by code_simp

lemma run_checked_gate:
  "cluster_started (state run_checked)" "\<not> cluster_shutdown (state run_checked)"
  "\<not> nodes_lock run_checked"
  by code_simp+

lemma run_allocated_b_nodes:
  "nodes (state run_allocated_b) =
     Some [(''0'', Some ''BAD!''), (''1'', Some ''b''), (''2'', None), (''3'', None),
      (''4'', None), (''5'', None), (''6'', None), (''7'', None), (''8'', None), (''9'', None),
      (''10'', None), (''11'', None), (''12'', None), (''13'', None), (''14'', None),
      (''15'', None), (''16'', None), (''17'', None), (''18'', None), (''19'', None),
      (''20'', None), (''21'', None), (''22'', None), (''23'', None), (''24'', None)]"
  by code_simp

lemma run_allocated_b_gate:
  "cluster_started (state run_allocated_b)" "\<not> cluster_shutdown (state run_allocated_b)"
  "\<not> nodes_lock run_allocated_b"
  by code_simp+

subsection \<open>Which nodes an allocation takes\<close>

lemma keys_fresh: "map fst fresh_nodes = map str_int (py_range 25)"
  by code_simp

lemma sorted_range: "sorted_wrt (<) (py_range n)"
  by (simp add: py_range_def)

lemma filter_keys_sorted:
  "map fst d = map f ks \<Longrightarrow> sorted_wrt (<) ks \<Longrightarrow>
     \<exists>js. sorted_wrt (<) js \<and> set js \<subseteq> set ks \<and> map fst (filter P d) = map f js"
proof (induction d arbitrary: ks)
  case Nil
  then show ?case by (intro exI [of _ "[]"]) simp
next
  case (Cons p d)
  then obtain a ks' where ks: "ks = a # ks'" and fa: "f a = fst p" and m: "map fst d = map f ks'"
    by (cases ks) auto
  have s': "sorted_wrt (<) ks'" and lt: "\<forall>x \<in> set ks'. a < x"
    using Cons.prems(2) ks by auto
  obtain js where js: "sorted_wrt (<) js" "set js \<subseteq> set ks'" "map fst (filter P d) = map f js"
    using Cons.IH [OF m s'] by blast
  show ?case
  proof (cases "P p")
    case True
    have "sorted_wrt (<) (a # js)" using js lt by auto
    then show ?thesis
      using True js ks fa by (intro exI [of _ "a # js"]) auto
  next
    case False
    then show ?thesis
      using js ks by (intro exI [of _ js]) auto
  qed
qed

lemma free_by_number:
  assumes "map fst d = map fst fresh_nodes"
  shows "\<exists>js. sorted_wrt (<) js \<and> map fst (filter (\<lambda>(k, v). v = None) d) = map str_int js"
  using filter_keys_sorted [of d str_int "py_range 25" "\<lambda>(k, v). v = None"]
    assms keys_fresh sorted_range
  by auto

lemma taken_was_free:
  "k \<in> set (take n (map fst (filter (\<lambda>(k, v). v = None) d))) \<Longrightarrow> (k, None) \<in> set d"
  by (auto dest!: in_set_takeD)

text \<open>
  Claim C8, as amended. On a started cluster that is not shut down, with the lock free
  and a count between 0 and the number of free nodes: when the allocate activity
  succeeds, the update returns the first \<open>count\<close> free nodes in the order of the table
  (the order in which the dict lists its keys), every one of them a node whose value was
  \<open>None\<close>; in the table after it exactly those nodes have the job's name, every other
  node keeping its value and the keys their order. When the table lists the keys as
  \<open>start_cluster\<close> wrote them, the free nodes are the names of an increasing list of
  node numbers, and the update returns the names of the first \<open>count\<close> of these: the
  free nodes of lowest number, lowest first.
\<close>

theorem allocate_selects_first_free_nodes:
  assumes gate: "cluster_started (state w)" "\<not> cluster_shutdown (state w)"
    "\<not> nodes_lock w" "nodes (state w) = Some d"
    and n0: "0 \<le> num_nodes inp"
    and enough: "num_nodes inp \<le> int (length (filter (\<lambda>(k, v). v = None) d))"
  shows "(\<exists>d'. fst (allocate_n_nodes_to_job (Inr ()) inp w)
               = Returned (take (nat (num_nodes inp)) (map fst (filter (\<lambda>(k, v). v = None) d)))
           \<and> nodes (state (snd (allocate_n_nodes_to_job (Inr ()) inp w))) = Some d'
           \<and> map fst d' = map fst d
           \<and> (\<forall>k. map_of d' k =
                 (if k \<in> set (take (nat (num_nodes inp))
                              (map fst (filter (\<lambda>(k, v). v = None) d)))
                  then Some (Some (task_name inp)) else map_of d k)))
       \<and> (\<forall>k \<in> set (take (nat (num_nodes inp)) (map fst (filter (\<lambda>(k, v). v = None) d))).
             (k, None) \<in> set d)
       \<and> (map fst d = map fst fresh_nodes \<longrightarrow>
            (\<exists>js. sorted_wrt (<) js
               \<and> map fst (filter (\<lambda>(k, v). v = None) d) = map str_int js
               \<and> fst (allocate_n_nodes_to_job (Inr ()) inp w)
                   = Returned (map str_int (take (nat (num_nodes inp)) js))))"
proof -
  let ?free = "map fst (filter (\<lambda>(k, v). v = None) d)"
  let ?sel = "take (nat (num_nodes inp)) ?free"
  let ?d' = "fold (\<lambda>n. AList.update n (Some (task_name inp))) ?sel d"
  have fr: "unassigned_nodes_of d = ?free"
    by (simp add: unassigned_nodes_of_def)
  have enough': "num_nodes inp \<le> int (length (unassigned_nodes_of d))"
    using enough by (simp add: fr)
  have sl: "slice_to (num_nodes inp) (unassigned_nodes_of d) = ?sel"
    using n0 by (simp add: slice_to_def fr)
  have sub: "set ?sel \<subseteq> set (map fst d)"
    by (auto dest!: in_set_takeD)
  have r: "fst (allocate_n_nodes_to_job (Inr ()) inp w) = Returned ?sel"
    by (simp add: allocate_success [OF gate enough'] sl)
  have n: "nodes (state (snd (allocate_n_nodes_to_job (Inr ()) inp w))) = Some ?d'"
    by (simp add: allocate_success [OF gate enough'] sl)
  have k: "map fst ?d' = map fst d"
    by (rule keys_fold_update [OF sub])
  have m: "\<forall>k. map_of ?d' k = (if k \<in> set ?sel then Some (Some (task_name inp)) else map_of d k)"
    by (simp add: map_of_fold_update)
  have c1: "\<exists>d'. fst (allocate_n_nodes_to_job (Inr ()) inp w) = Returned ?sel
           \<and> nodes (state (snd (allocate_n_nodes_to_job (Inr ()) inp w))) = Some d'
           \<and> map fst d' = map fst d
           \<and> (\<forall>k. map_of d' k = (if k \<in> set ?sel then Some (Some (task_name inp)) else map_of d k))"
    using r n k m by blast
  have c2: "\<forall>k \<in> set ?sel. (k, None) \<in> set d"
    by (intro ballI) (rule taken_was_free)
  have c3: "map fst d = map fst fresh_nodes \<longrightarrow>
            (\<exists>js. sorted_wrt (<) js \<and> ?free = map str_int js
               \<and> fst (allocate_n_nodes_to_job (Inr ()) inp w)
                   = Returned (map str_int (take (nat (num_nodes inp)) js)))"
  proof
    assume "map fst d = map fst fresh_nodes"
    from free_by_number [OF this] obtain js where
      js: "sorted_wrt (<) js" "?free = map str_int js" by blast
    have "?sel = map str_int (take (nat (num_nodes inp)) js)"
      by (simp add: js(2) take_map)
    then show "\<exists>js. sorted_wrt (<) js \<and> ?free = map str_int js
               \<and> fst (allocate_n_nodes_to_job (Inr ()) inp w)
                   = Returned (map str_int (take (nat (num_nodes inp)) js))"
      using js r by (intro exI [of _ js]) simp
  qed
  show ?thesis
    using c1 c2 c3 by (intro conjI)
qed

theorem allocate_selects_first_free_nodes_witness:
  "(\<exists>js. sorted_wrt (<) js
      \<and> map fst (filter (\<lambda>(k, v). v = None)
           [(''0'', Some ''BAD!''), (''1'', None), (''2'', None), (''3'', None), (''4'', None),
      (''5'', None), (''6'', None), (''7'', None), (''8'', None), (''9'', None),
      (''10'', None), (''11'', None), (''12'', None), (''13'', None), (''14'', None),
      (''15'', None), (''16'', None), (''17'', None), (''18'', None), (''19'', None),
      (''20'', None), (''21'', None), (''22'', None), (''23'', None), (''24'', None)]) = map str_int js
      \<and> fst (allocate_n_nodes_to_job (Inr ()) \<lparr>num_nodes = 2, task_name = ''task-0''\<rparr>
             run_checked)
          = Returned (map str_int
              (take (nat (num_nodes \<lparr>num_nodes = 2, task_name = ''task-0''\<rparr>)) js)))
   \<and> lookup_node run_checked ''0'' = Some (Some ''BAD!'')
   \<and> fst (allocate_n_nodes_to_job (Inr ()) \<lparr>num_nodes = 2, task_name = ''task-0''\<rparr> run_checked)
       = Returned [''1'', ''2'']"
proof -
  let ?d = "[(''0'', Some ''BAD!''), (''1'', None), (''2'', None), (''3'', None), (''4'', None),
      (''5'', None), (''6'', None), (''7'', None), (''8'', None), (''9'', None),
      (''10'', None), (''11'', None), (''12'', None), (''13'', None), (''14'', None),
      (''15'', None), (''16'', None), (''17'', None), (''18'', None), (''19'', None),
      (''20'', None), (''21'', None), (''22'', None), (''23'', None), (''24'', None)]"
  let ?inp = "\<lparr>num_nodes = 2, task_name = ''task-0''\<rparr>"
  have keys: "map fst ?d = map fst fresh_nodes"
    by (simp add: fresh_nodes_eq)
  have n0: "0 \<le> num_nodes ?inp" by simp
  have enough: "num_nodes ?inp \<le> int (length (filter (\<lambda>(k, v). v = None) ?d))"
    by simp
  note t = allocate_selects_first_free_nodes [OF run_checked_gate run_checked_nodes n0 enough]
  have c3: "\<exists>js. sorted_wrt (<) js
      \<and> map fst (filter (\<lambda>(k, v). v = None) ?d) = map str_int js
      \<and> fst (allocate_n_nodes_to_job (Inr ()) ?inp run_checked)
          = Returned (map str_int (take (nat (num_nodes ?inp)) js))"
    by (rule t [THEN conjunct2, THEN conjunct2, THEN mp, OF keys])
  have b: "lookup_node run_checked ''0'' = Some (Some ''BAD!'')"
    by code_simp
  have v: "fst (allocate_n_nodes_to_job (Inr ()) ?inp run_checked) = Returned [''1'', ''2'']"
    using t [THEN conjunct1] by simp
  show ?thesis
    by (intro conjI c3 b v)
qed

text \<open>
  Claim C8 as stated fails, on a started cluster that is not shut down and has 25 free
  nodes: resumed from the table in sorted order, an allocation of 3 nodes returns nodes
  \<open>0\<close>, \<open>1\<close> and \<open>10\<close>, and node \<open>2\<close>, of lower number than node \<open>10\<close>, stays free.
\<close>

theorem allocation_follows_table_not_numbers:
  "cluster_started (state resumed_sorted)
   \<and> \<not> cluster_shutdown (state resumed_sorted)
   \<and> \<not> nodes_lock resumed_sorted
   \<and> length (unassigned_nodes_of sorted_table) = 25
   \<and> lookup_node resumed_sorted ''2'' = Some None
   \<and> allocate_n_nodes_to_job (Inr ()) \<lparr>num_nodes = 3, task_name = ''job''\<rparr> resumed_sorted
       = (Returned [''0'', ''1'', ''10''],
          snd (allocate_n_nodes_to_job (Inr ()) \<lparr>num_nodes = 3, task_name = ''job''\<rparr>
                 resumed_sorted))
   \<and> lookup_node
         (snd (allocate_n_nodes_to_job (Inr ()) \<lparr>num_nodes = 3, task_name = ''job''\<rparr>
                 resumed_sorted)) ''2'' = Some None
   \<and> lookup_node
         (snd (allocate_n_nodes_to_job (Inr ()) \<lparr>num_nodes = 3, task_name = ''job''\<rparr>
                 resumed_sorted)) ''10'' = Some (Some ''job'')"
  by code_simp

subsection \<open>A count that is not positive\<close>

text \<open>
  Claim C10, as amended. On a started cluster that is not shut down, with the lock free
  and the allocate activity succeeding: a request for 0 nodes returns the empty list and
  leaves the table as it was; a request for a negative number never fails the capacity
  check, returns the free nodes without the last \<open>|num_nodes|\<close> of them, in the order of
  the table, every one of them a node whose value was \<open>None\<close>, and gives exactly those
  nodes to the job. When the table lists the keys as \<open>start_cluster\<close> wrote them, that
  order is the order of the node numbers.
\<close>

theorem allocate_non_positive_count:
  assumes gate: "cluster_started (state w)" "\<not> cluster_shutdown (state w)"
    "\<not> nodes_lock w" "nodes (state w) = Some d"
    and z: "num_nodes inp0 = 0" and neg: "num_nodes inp < 0"
  shows "fst (allocate_n_nodes_to_job (Inr ()) inp0 w) = Returned []
       \<and> nodes (state (snd (allocate_n_nodes_to_job (Inr ()) inp0 w))) = Some d
       \<and> (\<exists>d'. fst (allocate_n_nodes_to_job (Inr ()) inp w)
                 = Returned (take (length (filter (\<lambda>(k, v). v = None) d) - nat (- num_nodes inp))
                     (map fst (filter (\<lambda>(k, v). v = None) d)))
             \<and> nodes (state (snd (allocate_n_nodes_to_job (Inr ()) inp w))) = Some d'
             \<and> map fst d' = map fst d
             \<and> (\<forall>k. map_of d' k =
                   (if k \<in> set (take (length (filter (\<lambda>(k, v). v = None) d)
                                       - nat (- num_nodes inp))
                               (map fst (filter (\<lambda>(k, v). v = None) d)))
                    then Some (Some (task_name inp)) else map_of d k)))
       \<and> (\<forall>k \<in> set (take (length (filter (\<lambda>(k, v). v = None) d) - nat (- num_nodes inp))
                        (map fst (filter (\<lambda>(k, v). v = None) d))).
             (k, None) \<in> set d)
       \<and> (map fst d = map fst fresh_nodes \<longrightarrow>
            (\<exists>js. sorted_wrt (<) js
               \<and> map fst (filter (\<lambda>(k, v). v = None) d) = map str_int js
               \<and> fst (allocate_n_nodes_to_job (Inr ()) inp w)
                   = Returned (map str_int (take (length js - nat (- num_nodes inp)) js))))"
proof -
  let ?free = "map fst (filter (\<lambda>(k, v). v = None) d)"
  let ?n = "length (filter (\<lambda>(k, v). v = None) d) - nat (- num_nodes inp)"
  let ?sel = "take ?n ?free"
  let ?d' = "fold (\<lambda>n. AList.update n (Some (task_name inp))) ?sel d"
  have fr: "unassigned_nodes_of d = ?free"
    by (simp add: unassigned_nodes_of_def)
  have le0: "num_nodes inp0 \<le> int (length (unassigned_nodes_of d))" using z by simp
  have le: "num_nodes inp \<le> int (length (unassigned_nodes_of d))" using neg by simp
  have a0: "fst (allocate_n_nodes_to_job (Inr ()) inp0 w) = Returned []"
    using z by (simp add: allocate_success [OF gate le0] slice_to_def)
  have b0: "nodes (state (snd (allocate_n_nodes_to_job (Inr ()) inp0 w))) = Some d"
    using z by (simp add: allocate_success [OF gate le0] slice_to_def)
  have "nat (int (length ?free) + num_nodes inp) = ?n"
    using neg by simp
  then have sl: "slice_to (num_nodes inp) (unassigned_nodes_of d) = ?sel"
    using neg by (simp add: slice_to_def fr)
  have sub: "set ?sel \<subseteq> set (map fst d)"
    by (auto dest!: in_set_takeD)
  have r: "fst (allocate_n_nodes_to_job (Inr ()) inp w) = Returned ?sel"
    by (simp add: allocate_success [OF gate le] sl)
  have n: "nodes (state (snd (allocate_n_nodes_to_job (Inr ()) inp w))) = Some ?d'"
    by (simp add: allocate_success [OF gate le] sl)
  have k: "map fst ?d' = map fst d"
    by (rule keys_fold_update [OF sub])
  have m: "\<forall>k. map_of ?d' k = (if k \<in> set ?sel then Some (Some (task_name inp)) else map_of d k)"
    by (simp add: map_of_fold_update)
  have c1: "\<exists>d'. fst (allocate_n_nodes_to_job (Inr ()) inp w) = Returned ?sel
           \<and> nodes (state (snd (allocate_n_nodes_to_job (Inr ()) inp w))) = Some d'
           \<and> map fst d' = map fst d
           \<and> (\<forall>k. map_of d' k = (if k \<in> set ?sel then Some (Some (task_name inp)) else map_of d k))"
    using r n k m by blast
  have c2: "\<forall>k \<in> set ?sel. (k, None) \<in> set d"
    by (intro ballI) (rule taken_was_free)
  have c3: "map fst d = map fst fresh_nodes \<longrightarrow>
            (\<exists>js. sorted_wrt (<) js \<and> ?free = map str_int js
               \<and> fst (allocate_n_nodes_to_job (Inr ()) inp w)
                   = Returned (map str_int (take (length js - nat (- num_nodes inp)) js)))"
  proof
    assume "map fst d = map fst fresh_nodes"
    from free_by_number [OF this] obtain js where
      js: "sorted_wrt (<) js" "?free = map str_int js" by blast
    have "length (filter (\<lambda>(k, v). v = None) d) = length js"
      using arg_cong [OF js(2), of length] by simp
    then have "?sel = map str_int (take (length js - nat (- num_nodes inp)) js)"
      by (simp add: js(2) take_map)
    then show "\<exists>js. sorted_wrt (<) js \<and> ?free = map str_int js
               \<and> fst (allocate_n_nodes_to_job (Inr ()) inp w)
                   = Returned (map str_int (take (length js - nat (- num_nodes inp)) js))"
      using js r by (intro exI [of _ js]) simp
  qed
  show ?thesis
    using a0 b0 c1 c2 c3 by (intro conjI)
qed

theorem allocate_non_positive_count_witness:
  "fst (allocate_n_nodes_to_job (Inr ()) \<lparr>num_nodes = 0, task_name = ''job''\<rparr> run_allocated_b)
     = Returned []
   \<and> nodes (state (snd (allocate_n_nodes_to_job (Inr ())
         \<lparr>num_nodes = 0, task_name = ''job''\<rparr> run_allocated_b)))
     = nodes (state run_allocated_b)
   \<and> lookup_node run_allocated_b ''0'' = Some (Some ''BAD!'')
   \<and> lookup_node run_allocated_b ''1'' = Some (Some ''b'')
   \<and> fst (allocate_n_nodes_to_job (Inr ()) \<lparr>num_nodes = - 21, task_name = ''job''\<rparr>
            run_allocated_b)
     = Returned [''2'', ''3'']
   \<and> (\<exists>js. sorted_wrt (<) js
      \<and> map fst (filter (\<lambda>(k, v). v = None)
           [(''0'', Some ''BAD!''), (''1'', Some ''b''), (''2'', None), (''3'', None),
      (''4'', None), (''5'', None), (''6'', None), (''7'', None), (''8'', None), (''9'', None),
      (''10'', None), (''11'', None), (''12'', None), (''13'', None), (''14'', None),
      (''15'', None), (''16'', None), (''17'', None), (''18'', None), (''19'', None),
      (''20'', None), (''21'', None), (''22'', None), (''23'', None), (''24'', None)]) = map str_int js
      \<and> fst (allocate_n_nodes_to_job (Inr ()) \<lparr>num_nodes = - 21, task_name = ''job''\<rparr>
             run_allocated_b)
          = Returned (map str_int
              (take (length js - nat (- num_nodes \<lparr>num_nodes = - 21, task_name = ''job''\<rparr>))
                 js)))"
proof -
  let ?d = "[(''0'', Some ''BAD!''), (''1'', Some ''b''), (''2'', None), (''3'', None),
      (''4'', None), (''5'', None), (''6'', None), (''7'', None), (''8'', None), (''9'', None),
      (''10'', None), (''11'', None), (''12'', None), (''13'', None), (''14'', None),
      (''15'', None), (''16'', None), (''17'', None), (''18'', None), (''19'', None),
      (''20'', None), (''21'', None), (''22'', None), (''23'', None), (''24'', None)]"
  let ?none = "\<lparr>num_nodes = 0, task_name = ''job''\<rparr>"
  let ?inp = "\<lparr>num_nodes = - 21, task_name = ''job''\<rparr>"
  have keys: "map fst ?d = map fst fresh_nodes"
    by (simp add: fresh_nodes_eq)
  have z: "num_nodes ?none = 0" by simp
  have neg: "num_nodes ?inp < 0" by simp
  note t = allocate_non_positive_count [OF run_allocated_b_gate run_allocated_b_nodes z neg]
  have a0: "fst (allocate_n_nodes_to_job (Inr ()) ?none run_allocated_b) = Returned []"
    by (rule t [THEN conjunct1])
  have b0: "nodes (state (snd (allocate_n_nodes_to_job (Inr ()) ?none run_allocated_b)))
      = nodes (state run_allocated_b)"
    using t [THEN conjunct2, THEN conjunct1] by (simp add: run_allocated_b_nodes)
  have l0: "lookup_node run_allocated_b ''0'' = Some (Some ''BAD!'')"
    by (simp add: lookup_node_def run_allocated_b_nodes)
  have l1: "lookup_node run_allocated_b ''1'' = Some (Some ''b'')"
    by (simp add: lookup_node_def run_allocated_b_nodes)
  have v: "fst (allocate_n_nodes_to_job (Inr ()) ?inp run_allocated_b) = Returned [''2'', ''3'']"
    using t [THEN conjunct2, THEN conjunct2, THEN conjunct1] by simp
  have c3: "\<exists>js. sorted_wrt (<) js
      \<and> map fst (filter (\<lambda>(k, v). v = None) ?d) = map str_int js
      \<and> fst (allocate_n_nodes_to_job (Inr ()) ?inp run_allocated_b)
          = Returned (map str_int (take (length js - nat (- num_nodes ?inp)) js))"
    by (rule t [THEN conjunct2, THEN conjunct2, THEN conjunct2, THEN conjunct2, THEN mp, OF keys])
  show ?thesis
    by (intro conjI a0 b0 l0 l1 v c3)
qed

text \<open>
  Claim C10 as stated fails where the table is not in the order of the node numbers:
  resumed from the table in sorted order, a request for \<open>-22\<close> nodes returns nodes \<open>0\<close>,
  \<open>1\<close> and \<open>10\<close>, which are not the free nodes without the last 22 in the order of the
  node numbers (nodes \<open>0\<close>, \<open>1\<close> and \<open>2\<close>); node \<open>2\<close> stays free.
\<close>

theorem negative_count_follows_table_not_numbers:
  "cluster_started (state resumed_sorted)
   \<and> \<not> cluster_shutdown (state resumed_sorted)
   \<and> \<not> nodes_lock resumed_sorted
   \<and> length (unassigned_nodes_of sorted_table) = 25
   \<and> lookup_node resumed_sorted ''2'' = Some None
   \<and> allocate_n_nodes_to_job (Inr ()) \<lparr>num_nodes = - 22, task_name = ''job''\<rparr> resumed_sorted
       = (Returned [''0'', ''1'', ''10''],
          snd (allocate_n_nodes_to_job (Inr ()) \<lparr>num_nodes = - 22, task_name = ''job''\<rparr>
                 resumed_sorted))
   \<and> lookup_node
         (snd (allocate_n_nodes_to_job (Inr ()) \<lparr>num_nodes = - 22, task_name = ''job''\<rparr>
                 resumed_sorted)) ''2'' = Some None
   \<and> lookup_node
         (snd (allocate_n_nodes_to_job (Inr ()) \<lparr>num_nodes = - 22, task_name = ''job''\<rparr>
                 resumed_sorted)) ''10'' = Some (Some ''job'')"
  by code_simp

end
